theory Spec2Isabelle
  imports Complex_Main
begin

section \<open>Python values shared by the modules\<close>

text \<open>
  Exceptions are values. Only the classes that the orchestrator and the proposers can meet
  are listed; \<open>py_str\<close> is Python's \<^verbatim>\<open>str(e)\<close>, which quotes the key of a
  \<^verbatim>\<open>KeyError\<close>.
\<close>

datatype exn =
    KeyError string
  | TypeError string
  | ValueError string
  | AttributeError string
  | Exception string

abbreviation nl :: string where
  "nl \<equiv> [CHR 0x0A]"

abbreviation apostrophe :: string where
  "apostrophe \<equiv> [CHR 0x27]"

fun py_str :: "exn \<Rightarrow> string" where
  "py_str (KeyError k) = apostrophe @ k @ apostrophe"
| "py_str (TypeError m) = m"
| "py_str (ValueError m) = m"
| "py_str (AttributeError m) = m"
| "py_str (Exception m) = m"

text \<open>Calling a \<^verbatim>\<open>str\<close> object, as in \<^verbatim>\<open>self.game.result()\<close> where \<^verbatim>\<open>result\<close> is a property.\<close>

definition py_call_str :: "string \<Rightarrow> exn + string" where
  "py_call_str s = Inl (TypeError (apostrophe @ ''str'' @ apostrophe @ '' object is not callable''))"

text \<open>Decimal rendering of integers, as an f-string does it.\<close>

definition digit_char :: "nat \<Rightarrow> char" where
  "digit_char d = char_of (48 + d)"

fun str_nat :: "nat \<Rightarrow> string" where
  "str_nat n = (if n < 10 then [digit_char n] else str_nat (n div 10) @ [digit_char (n mod 10)])"

definition str_int :: "int \<Rightarrow> string" where
  "str_int i = (if i < 0 then ''-'' @ str_nat (nat (- i)) else str_nat (nat i))"

definition zero_pad :: "nat \<Rightarrow> string \<Rightarrow> string" where
  "zero_pad w s = replicate (w - length s) (CHR ''0'') @ s"

text \<open>
  \<^verbatim>\<open>datetime.now()\<close> is read by the caller and handed in; only the calendar date is
  ever formatted (\<^verbatim>\<open>strftime("%Y.%m.%d")\<close>).
\<close>

record datetime =
  dt_year :: nat
  dt_month :: nat
  dt_day :: nat

definition strftime_ymd :: "datetime \<Rightarrow> string" where
  "strftime_ymd d =
     zero_pad 4 (str_nat (dt_year d)) @ ''.'' @ zero_pad 2 (str_nat (dt_month d)) @ ''.''
       @ zero_pad 2 (str_nat (dt_day d))"

section \<open>llm/base.py: the move a proposer returns\<close>

text \<open>
  A float of the source is the real number it stands for. Comparing two floats is exact.
  The sum and the division that make the running average round their results; they are
  operations of the environment below, so nothing is assumed about their rounding. The
  subtraction that charges a clock is written exactly: what is shown about clocks uses
  only the sign and the order of its results.
\<close>

record chess_move =
  move :: string
  explanation :: string
  confidence :: real
  thinking_time :: real

section \<open>The external collaborators\<close>

text \<open>
  The rules engine (the \<^verbatim>\<open>chess\<close> library), the two proposers behind the abstract
  \<^verbatim>\<open>BaseLLM.get_next_move\<close>, and float formatting are not part of the repository. They
  are parameters: a record of functions over a board type \<open>'b\<close>, a move type \<open>'m\<close> and a
  proposer state \<open>'p\<close>. A function that raises \<^verbatim>\<open>ValueError\<close> in Python returns
  \<open>None\<close>; a proposer call returns the exception or the move, and its next state.

  \<^item> \<open>board_turn\<close>: \<^verbatim>\<open>board.turn\<close>, \<open>True\<close> for \<^verbatim>\<open>chess.WHITE\<close>;
  \<^item> \<open>pgn_str\<close>: \<^verbatim>\<open>str(game)\<close> of a \<^verbatim>\<open>chess.pgn.Game\<close> with the given headers and a
    main line of moves with their comments;
  \<^item> \<open>format_2f\<close>: the format specification \<^verbatim>\<open>:.2f\<close>;
  \<^item> \<open>py_sum\<close>: \<^verbatim>\<open>sum\<close> of a list of floats, and \<open>py_truediv\<close>: a float divided by an
    \<^verbatim>\<open>int\<close>, both in floating point;
  \<^item> \<open>type_name\<close>: \<^verbatim>\<open>type(player).__name__\<close>.

  Printing to the console is left out throughout.
\<close>

record ('b, 'm, 'p) env =
  initial_board :: 'b
  board_turn :: "'b \<Rightarrow> bool"
  board_legal_moves :: "'b \<Rightarrow> 'm list"
  board_push :: "'b \<Rightarrow> 'm \<Rightarrow> 'b"
  board_is_game_over :: "'b \<Rightarrow> bool"
  board_is_checkmate :: "'b \<Rightarrow> bool"
  board_fen :: "'b \<Rightarrow> string"
  board_san :: "'b \<Rightarrow> 'm \<Rightarrow> string"
  board_parse_san :: "'b \<Rightarrow> string \<Rightarrow> 'm option"
  move_uci :: "'m \<Rightarrow> string"
  move_from_uci :: "string \<Rightarrow> 'm option"
  pgn_str :: "(string \<times> string) list \<Rightarrow> ('m \<times> string) list \<Rightarrow> string"
  format_2f :: "real \<Rightarrow> string"
  py_sum :: "real list \<Rightarrow> real"
  py_truediv :: "real \<Rightarrow> int \<Rightarrow> real"
  type_name :: "'p \<Rightarrow> string"
  llm_get_next_move ::
    "'p \<Rightarrow> string \<Rightarrow> string list \<Rightarrow> string list \<Rightarrow> (exn + chess_move) \<times> 'p"

section \<open>chess\_engine/game.py: ChessGame\<close>

record 'b chess_game =
  board :: 'b
  player1 :: string
  player2 :: string
  move_history :: "(string \<times> string \<times> string) list"
  start_time :: datetime

definition ChessGame_init ::
  "('b, 'm, 'p) env \<Rightarrow> datetime \<Rightarrow> string \<Rightarrow> string \<Rightarrow> 'b chess_game" where
  "ChessGame_init E now p1 p2 =
     \<lparr>board = initial_board E, player1 = p1, player2 = p2, move_history = [],
      start_time = now\<rparr>"

definition current_player :: "('b, 'm, 'p) env \<Rightarrow> 'b chess_game \<Rightarrow> string" where
  "current_player E g = (if board_turn E (board g) then player1 g else player2 g)"

definition is_game_over :: "('b, 'm, 'p) env \<Rightarrow> 'b chess_game \<Rightarrow> bool" where
  "is_game_over E g = board_is_game_over E (board g)"

text \<open>The property \<^verbatim>\<open>result\<close>; \<^verbatim>\<open>chess.BLACK\<close> is \<open>False\<close>.\<close>

definition result :: "('b, 'm, 'p) env \<Rightarrow> 'b chess_game \<Rightarrow> string" where
  "result E g =
     (if \<not> is_game_over E g then ''*''
      else if board_is_checkmate E (board g) then
        (if board_turn E (board g) = False then ''1-0'' else ''0-1'')
      else ''1/2-1/2'')"

definition get_legal_moves :: "('b, 'm, 'p) env \<Rightarrow> 'b chess_game \<Rightarrow> string list" where
  "get_legal_moves E g = map (move_uci E) (board_legal_moves E (board g))"

text \<open>\<^verbatim>\<open>make_move\<close> returns its boolean and the game as it leaves it.\<close>

definition make_move ::
  "('b, 'm, 'p) env \<Rightarrow> 'b chess_game \<Rightarrow> string \<Rightarrow> string \<Rightarrow> string \<Rightarrow> bool \<times> 'b chess_game" where
  "make_move E g mv_uci mv_san expl =
     (case move_from_uci E mv_uci of
        None \<Rightarrow> (False, g)
      | Some m \<Rightarrow>
          if m \<in> set (board_legal_moves E (board g)) then
            (True, g\<lparr>board := board_push E (board g) m,
                      move_history := move_history g @ [(mv_uci, mv_san, expl)]\<rparr>)
          else (False, g))"

definition get_fen :: "('b, 'm, 'p) env \<Rightarrow> 'b chess_game \<Rightarrow> string" where
  "get_fen E g = board_fen E (board g)"

text \<open>
  The nodes of the exported game: each history entry is parsed again with
  \<^verbatim>\<open>chess.Move.from_uci\<close>, which raises \<^verbatim>\<open>ValueError\<close> on a malformed string; the comment
  of a node is the explanation (the default comment is the empty string).
\<close>

fun pgn_nodes ::
  "('b, 'm, 'p) env \<Rightarrow> (string \<times> string \<times> string) list \<Rightarrow> exn + ('m \<times> string) list" where
  "pgn_nodes E [] = Inr []"
| "pgn_nodes E ((mv_uci, mv_san, expl) # rest) =
     (case move_from_uci E mv_uci of
        None \<Rightarrow> Inl (ValueError (''invalid uci: '' @ mv_uci))
      | Some m \<Rightarrow>
          (case pgn_nodes E rest of
             Inl e \<Rightarrow> Inl e
           | Inr ns \<Rightarrow> Inr ((m, expl) # ns)))"

definition export_pgn :: "('b, 'm, 'p) env \<Rightarrow> 'b chess_game \<Rightarrow> exn + string" where
  "export_pgn E g =
     (let headers =
            [(''Event'', ''LLM Chess Battle''),
             (''Date'', strftime_ymd (start_time g)),
             (''White'', player1 g),
             (''Black'', player2 g),
             (''Result'', result E g)]
      in case pgn_nodes E (move_history g) of
           Inl e \<Rightarrow> Inl e
         | Inr ns \<Rightarrow> Inr (pgn_str E headers ns))"

section \<open>controller/game\_controller.py: GameController\<close>

text \<open>
  The dictionaries keyed by \<^verbatim>\<open>"white"\<close> and \<^verbatim>\<open>"black"\<close> are functions on strings (no other
  key is ever used). \<^verbatim>\<open>game_stats\<close> is a record; its keys \<^verbatim>\<open>"termination"\<close> and
  \<^verbatim>\<open>"result"\<close> are absent until they are first assigned, hence optional.
\<close>

record game_stats =
  total_moves :: int
  average_time_per_move :: "string \<Rightarrow> real"
  longest_think_time :: "string \<Rightarrow> real"
  stats_termination :: "string option"
  stats_result :: "string option"

record ('b, 'p) game_controller =
  white_player :: 'p
  black_player :: 'p
  time_control :: "int option"
  max_moves :: "int option"
  game :: "'b chess_game"
  time_remaining :: "(string \<Rightarrow> real) option"
  move_times :: "string \<Rightarrow> real list"
  match_start_time :: "datetime option"
  game_stats :: game_stats

text \<open>Truthiness of an \<^verbatim>\<open>Optional[int]\<close>: \<^verbatim>\<open>None\<close> and \<^verbatim>\<open>0\<close> are false.\<close>

fun truthy :: "int option \<Rightarrow> bool" where
  "truthy None = False"
| "truthy (Some n) = (n \<noteq> 0)"

definition GameController_init ::
  "('b, 'm, 'p) env \<Rightarrow> datetime \<Rightarrow> 'p \<Rightarrow> 'p \<Rightarrow> int option \<Rightarrow> int option
     \<Rightarrow> ('b, 'p) game_controller" where
  "GameController_init E now white black tc mm =
     \<lparr>white_player = white,
      black_player = black,
      time_control = tc,
      max_moves = mm,
      game = ChessGame_init E now (''LLM-White ('' @ type_name E white @ '')'')
               (''LLM-Black ('' @ type_name E black @ '')''),
      time_remaining = (if truthy tc then Some (\<lambda>_. real_of_int (the tc)) else None),
      move_times = (\<lambda>_. []),
      match_start_time = None,
      game_stats =
        \<lparr>total_moves = 0,
         average_time_per_move = (\<lambda>_. 0),
         longest_think_time = (\<lambda>_. 0),
         stats_termination = None,
         stats_result = None\<rparr>\<rparr>"

text \<open>The player objects live in the controller; a reference says which one is meant.\<close>

datatype player_ref = WhitePlayer | BlackPlayer

fun player_of :: "('b, 'p) game_controller \<Rightarrow> player_ref \<Rightarrow> 'p" where
  "player_of c WhitePlayer = white_player c"
| "player_of c BlackPlayer = black_player c"

fun set_player :: "('b, 'p) game_controller \<Rightarrow> player_ref \<Rightarrow> 'p \<Rightarrow> ('b, 'p) game_controller" where
  "set_player c WhitePlayer p = c\<lparr>white_player := p\<rparr>"
| "set_player c BlackPlayer p = c\<lparr>black_player := p\<rparr>"

definition get_current_player :: "('b, 'm, 'p) env \<Rightarrow> ('b, 'p) game_controller \<Rightarrow> player_ref" where
  "get_current_player E c = (if board_turn E (board (game c)) then WhitePlayer else BlackPlayer)"

definition set_termination :: "('b, 'p) game_controller \<Rightarrow> string \<Rightarrow> ('b, 'p) game_controller" where
  "set_termination c t = c\<lparr>game_stats := (game_stats c)\<lparr>stats_termination := Some t\<rparr>\<rparr>"

definition set_result :: "('b, 'p) game_controller \<Rightarrow> string \<Rightarrow> ('b, 'p) game_controller" where
  "set_result c r = c\<lparr>game_stats := (game_stats c)\<lparr>stats_result := Some r\<rparr>\<rparr>"

text \<open>
  \<^verbatim>\<open>_is_game_finished\<close>. On a finished game it stores the termination and then evaluates
  \<^verbatim>\<open>self.game.result()\<close>: the property yields a string, and calling it raises.
\<close>

definition is_game_finished ::
  "('b, 'm, 'p) env \<Rightarrow> ('b, 'p) game_controller \<Rightarrow> (exn + bool) \<times> ('b, 'p) game_controller" where
  "is_game_finished E c =
     (if is_game_over E (game c) then
        (let c1 = set_termination c ''Normal chess ending''
         in case py_call_str (result E (game c1)) of
              Inl e \<Rightarrow> (Inl e, c1)
            | Inr r \<Rightarrow> (Inr True, set_result c1 r))
      else if truthy (max_moves c) \<and> total_moves (game_stats c) \<ge> the (max_moves c) then
        (Inr True, set_termination c ''Maximum moves reached'')
      else (Inr False, c))"

text \<open>
  \<^verbatim>\<open>_get_next_move\<close>. Every exception of the proposer call is caught by the outer handler
  and becomes \<^verbatim>\<open>None\<close>; \<^verbatim>\<open>parse_san\<close> raising \<^verbatim>\<open>ValueError\<close> is caught by the inner one.
  The result \<^verbatim>\<open>False\<close> of an unsuccessful \<^verbatim>\<open>make_move\<close> is falsy like \<^verbatim>\<open>None\<close>.
\<close>

definition apply_proposed ::
  "('b, 'm, 'p) env \<Rightarrow> ('b, 'p) game_controller \<Rightarrow> chess_move
     \<Rightarrow> chess_move option \<times> ('b, 'p) game_controller" where
  "apply_proposed E c move_result =
     (let san_move = move move_result
      in case board_parse_san E (board (game c)) san_move of
           None \<Rightarrow> (None, c)
         | Some m \<Rightarrow>
             (let uci_move = move_uci E m;
                  move_result' = move_result\<lparr>move := uci_move\<rparr>;
                  (success, g') =
                     make_move E (game c) (move move_result') san_move
                       (explanation move_result' @ '' (confidence: ''
                          @ format_2f E (confidence move_result') @ '')'')
              in (if success then Some move_result' else None, c\<lparr>game := g'\<rparr>)))"

definition get_next_move ::
  "('b, 'm, 'p) env \<Rightarrow> ('b, 'p) game_controller \<Rightarrow> player_ref \<Rightarrow> string
     \<Rightarrow> chess_move option \<times> ('b, 'p) game_controller" where
  "get_next_move E c player color =
     (let legal_moves =
            map (board_san E (board (game c))) (board_legal_moves E (board (game c)));
          (answer, p') =
            llm_get_next_move E (player_of c player) (get_fen E (game c))
              (map (\<lambda>(_, mv, _). mv) (move_history (game c))) legal_moves;
          c1 = set_player c player p'
      in case answer of
           Inl e \<Rightarrow> (None, c1)
         | Inr move_result \<Rightarrow>
             (case time_remaining c1 of
                Some tr \<Rightarrow>
                  (let tr' = tr(color := tr color - thinking_time move_result);
                       c2 = c1\<lparr>time_remaining := Some tr'\<rparr>
                   in if tr' color \<le> 0 then (None, set_termination c2 (color @ '' lost on time''))
                      else apply_proposed E c2 move_result)
              | None \<Rightarrow> apply_proposed E c1 move_result))"

text \<open>\<^verbatim>\<open>_update_stats\<close>.\<close>

definition update_stats ::
  "('b, 'm, 'p) env \<Rightarrow> ('b, 'p) game_controller \<Rightarrow> chess_move \<Rightarrow> string
     \<Rightarrow> ('b, 'p) game_controller" where
  "update_stats E c mv color =
     (let gs1 = (game_stats c)\<lparr>total_moves := total_moves (game_stats c) + 1\<rparr>;
          mt = (move_times c)(color := move_times c color @ [thinking_time mv]);
          gs2 = gs1\<lparr>average_time_per_move :=
                      (average_time_per_move gs1)
                        (color := py_truediv E (py_sum E (mt color)) (int (length (mt color))))\<rparr>;
          gs3 = (if thinking_time mv > longest_think_time gs2 color
                 then gs2\<lparr>longest_think_time :=
                             (longest_think_time gs2)(color := thinking_time mv)\<rparr>
                 else gs2)
      in c\<lparr>move_times := mt, game_stats := gs3\<rparr>)"

text \<open>
  \<^verbatim>\<open>export_game\<close>. The lookup \<^verbatim>\<open>self.game_stats["result"]\<close> raises \<^verbatim>\<open>KeyError\<close> when the
  key was never assigned.
\<close>

definition stats_comment :: "('b, 'm, 'p) env \<Rightarrow> game_stats \<Rightarrow> string" where
  "stats_comment E gs =
     ''Game Statistics:'' @ nl
     @ ''Total Moves: '' @ str_int (total_moves gs) @ nl
     @ ''Average Think Time - White: '' @ format_2f E (average_time_per_move gs ''white'')
     @ ''s, Black: '' @ format_2f E (average_time_per_move gs ''black'') @ ''s'' @ nl
     @ ''Longest Think Time - White: '' @ format_2f E (longest_think_time gs ''white'')
     @ ''s, Black: '' @ format_2f E (longest_think_time gs ''black'') @ ''s'' @ nl"

definition export_game :: "('b, 'm, 'p) env \<Rightarrow> ('b, 'p) game_controller \<Rightarrow> exn + string" where
  "export_game E c =
     (case export_pgn E (game c) of
        Inl e \<Rightarrow> Inl e
      | Inr pgn \<Rightarrow>
          (let sc = stats_comment E (game_stats c);
               sc1 = (case stats_termination (game_stats c) of
                        Some t \<Rightarrow> sc @ ''Termination: '' @ t @ nl
                      | None \<Rightarrow> sc)
           in case stats_result (game_stats c) of
                None \<Rightarrow> Inl (KeyError ''result'')
              | Some r \<Rightarrow>
                  (let sc2 = (if r \<noteq> ''*'' then sc1 @ ''Result: '' @ r @ nl else sc1)
                   in Inr (pgn @ nl @ nl @ sc2))))"

text \<open>
  \<^verbatim>\<open>play_game\<close>. One pass through the \<^verbatim>\<open>while\<close> loop either goes on or leaves the loop:
  the game is finished, the \<^verbatim>\<open>break\<close> after a falsy move, or an exception.
\<close>

datatype loop_exit = Finished | Broke | Raised exn

definition color_to_move :: "('b, 'm, 'p) env \<Rightarrow> ('b, 'p) game_controller \<Rightarrow> string" where
  "color_to_move E c = (if board_turn E (board (game c)) then ''white'' else ''black'')"

definition loop_iteration ::
  "('b, 'm, 'p) env \<Rightarrow> ('b, 'p) game_controller
     \<Rightarrow> loop_exit option \<times> ('b, 'p) game_controller" where
  "loop_iteration E c =
     (case is_game_finished E c of
        (Inl e, c1) \<Rightarrow> (Some (Raised e), c1)
      | (Inr True, c1) \<Rightarrow> (Some Finished, c1)
      | (Inr False, c1) \<Rightarrow>
          (let current = get_current_player E c1;
               color = color_to_move E c1;
               (mv, c2) = get_next_move E c1 current color
           in case mv of
                None \<Rightarrow>
                  (Some Broke,
                   set_termination
                     (set_result c2 (if color = ''white'' then ''0-1'' else ''1-0''))
                     (''Invalid move by '' @ color))
              | Some m \<Rightarrow> (None, update_stats E c2 m color)))"

text \<open>
  The loop has no bound of its own, so it runs on fuel: \<open>None\<close> means the fuel ran out
  before the loop was left.
\<close>

fun play_loop ::
  "('b, 'm, 'p) env \<Rightarrow> nat \<Rightarrow> ('b, 'p) game_controller
     \<Rightarrow> (loop_exit \<times> ('b, 'p) game_controller) option" where
  "play_loop E 0 c = None"
| "play_loop E (Suc n) c =
     (case loop_iteration E c of
        (Some x, c') \<Rightarrow> Some (x, c')
      | (None, c') \<Rightarrow> play_loop E n c')"

text \<open>The handler \<^verbatim>\<open>except Exception as e\<close> of \<^verbatim>\<open>play_game\<close>.\<close>

definition on_exception ::
  "('b, 'm, 'p) env \<Rightarrow> exn \<Rightarrow> ('b, 'p) game_controller
     \<Rightarrow> (exn + string) \<times> ('b, 'p) game_controller" where
  "on_exception E e c =
     (let c1 = set_termination c (''Error: '' @ py_str e) in (export_game E c1, c1))"

definition play_game ::
  "('b, 'm, 'p) env \<Rightarrow> datetime \<Rightarrow> nat \<Rightarrow> ('b, 'p) game_controller
     \<Rightarrow> ((exn + string) \<times> ('b, 'p) game_controller) option" where
  "play_game E now fuel c =
     (case play_loop E fuel (c\<lparr>match_start_time := Some now\<rparr>) of
        None \<Rightarrow> None
      | Some (Raised e, c1) \<Rightarrow> Some (on_exception E e c1)
      | Some (_, c1) \<Rightarrow>
          (case export_game E c1 of
             Inr text \<Rightarrow> Some (Inr text, c1)
           | Inl e \<Rightarrow> Some (on_exception E e c1)))"

text \<open>The controller states at the head of each pass, and the state the loop ends in.\<close>

fun loop_states ::
  "('b, 'm, 'p) env \<Rightarrow> nat \<Rightarrow> ('b, 'p) game_controller \<Rightarrow> ('b, 'p) game_controller list" where
  "loop_states E 0 c = [c]"
| "loop_states E (Suc n) c =
     c # (case loop_iteration E c of
            (Some x, c') \<Rightarrow> [c']
          | (None, c') \<Rightarrow> loop_states E n c')"

section \<open>llm/base.py, llm/anthropic\_llm.py, llm/openai\_llm.py: the proposers\<close>

text \<open>
  The remote client is an oracle: \<open>api p k prompt\<close> is what the \<open>k\<close>-th call of the client
  yields for the request \<open>prompt\<close>. It either raises, or returns a text after \<open>elapsed\<close>
  seconds since \<^verbatim>\<open>start_time\<close>. The text is given by what \<^verbatim>\<open>json.loads\<close> and the three
  subscripts make of it: not JSON at all (with the decoder's message), or an object in which
  each of the keys \<^verbatim>\<open>"move"\<close>, \<^verbatim>\<open>"explanation"\<close>, \<^verbatim>\<open>"confidence"\<close> is present or missing;
  the values of present keys have the types \<^verbatim>\<open>ChessMove\<close> declares. Rate limiting only
  delays the call and is left out.
\<close>

datatype api_reply =
    JsonInvalid string
  | JsonObject "string option" "string option" "real option"

datatype api_outcome =
    ApiRaises exn
  | ApiReturns real api_reply

datatype llm_class = OpenAILLM | AnthropicLLM

record llm =
  llm_class :: llm_class
  retries :: nat
  api :: "nat \<Rightarrow> string \<Rightarrow> api_outcome"
  api_calls :: nat

definition BaseLLM_init :: "llm_class \<Rightarrow> (nat \<Rightarrow> string \<Rightarrow> api_outcome) \<Rightarrow> llm" where
  "BaseLLM_init cls client = \<lparr>llm_class = cls, retries = 3, api = client, api_calls = 0\<rparr>"

fun class_name :: "llm_class \<Rightarrow> string" where
  "class_name OpenAILLM = ''OpenAILLM''"
| "class_name AnthropicLLM = ''AnthropicLLM''"

text \<open>\<^verbatim>\<open>_get_chess_prompt\<close>.\<close>

fun numbered :: "nat \<Rightarrow> string list \<Rightarrow> string" where
  "numbered i [] = []"
| "numbered i (m # ms) = str_nat i @ ''. '' @ m @ nl @ numbered (Suc i) ms"

fun join :: "string \<Rightarrow> string list \<Rightarrow> string" where
  "join sep [] = []"
| "join sep [x] = x"
| "join sep (x # y # ys) = x @ sep @ join sep (y # ys)"

definition quoted :: "string \<Rightarrow> string" where
  "quoted s = apostrophe @ s @ apostrophe"

definition get_chess_prompt :: "string \<Rightarrow> string list \<Rightarrow> string list \<Rightarrow> string" where
  "get_chess_prompt board_fen_str history legal =
     (let prompt =
            ''You are playing a game of chess. Analyze the position and make the best move.''
            @ nl @ nl @ ''Current position (FEN): '' @ board_fen_str @ nl;
          prompt1 =
            (if history \<noteq> [] then prompt @ nl @ ''Previous moves:'' @ nl @ numbered 1 history
             else prompt)
      in prompt1 @ nl @ ''Legal moves:'' @ nl @ join '', '' legal
         @ nl @ nl @ ''Respond with your move in algebraic notation (e.g., '' @ quoted ''e4''
         @ '', '' @ quoted ''Nf3'' @ '', etc.)''
         @ nl @ ''and a brief explanation of your thinking.''
         @ nl @ ''Format your response as JSON with keys: '' @ quoted ''move'' @ '', ''
         @ quoted ''explanation'' @ '', '' @ quoted ''confidence'' @ '' (0-1)'')"

text \<open>
  One pass of the \<^verbatim>\<open>for\<close> loop of \<^verbatim>\<open>get_next_move\<close> either continues with the next
  attempt, returns the move, or raises. The inner handler turns \<^verbatim>\<open>JSONDecodeError\<close> and
  \<^verbatim>\<open>KeyError\<close> into a \<^verbatim>\<open>ValueError\<close>; the outer handler catches every exception, that
  \<^verbatim>\<open>ValueError\<close> included, and raises an \<^verbatim>\<open>Exception\<close> in its place.
\<close>

datatype attempt = Continue | Return chess_move | Raise exn

definition invalid_format :: "string \<Rightarrow> string \<Rightarrow> exn" where
  "invalid_format vendor_name detail =
     ValueError (''Invalid response format from '' @ vendor_name @ '': '' @ detail)"

definition api_error :: "string \<Rightarrow> exn \<Rightarrow> exn" where
  "api_error vendor_name e =
     Exception (''Error calling '' @ vendor_name @ '' API: '' @ py_str e)"

definition read_reply ::
  "string \<Rightarrow> string list \<Rightarrow> nat \<Rightarrow> nat \<Rightarrow> real \<Rightarrow> api_reply \<Rightarrow> attempt" where
  "read_reply vendor_name legal i bound elapsed reply =
     (case reply of
        JsonInvalid msg \<Rightarrow> Raise (invalid_format vendor_name msg)
      | JsonObject mv ex cf \<Rightarrow>
          (case mv of
             None \<Rightarrow> Raise (invalid_format vendor_name (py_str (KeyError ''move'')))
           | Some m \<Rightarrow>
               if m \<notin> set legal \<and> i < bound then Continue
               else
                 (case ex of
                    None \<Rightarrow> Raise (invalid_format vendor_name (py_str (KeyError ''explanation'')))
                  | Some e \<Rightarrow>
                      (case cf of
                         None \<Rightarrow>
                           Raise (invalid_format vendor_name (py_str (KeyError ''confidence'')))
                       | Some c \<Rightarrow>
                           Return \<lparr>move = m, explanation = e, confidence = c,
                                   thinking_time = elapsed\<rparr>))))"

definition one_attempt ::
  "string \<Rightarrow> llm \<Rightarrow> string \<Rightarrow> string list \<Rightarrow> nat \<Rightarrow> attempt \<times> llm" where
  "one_attempt vendor_name p prompt legal i =
     (let p' = p\<lparr>api_calls := api_calls p + 1\<rparr>
      in case api p (api_calls p) prompt of
           ApiRaises e \<Rightarrow> (Raise (api_error vendor_name e), p')
         | ApiReturns elapsed reply \<Rightarrow>
             (case read_reply vendor_name legal i (retries p) elapsed reply of
                Raise e \<Rightarrow> (Raise (api_error vendor_name e), p')
              | other \<Rightarrow> (other, p')))"

text \<open>
  The loop \<^verbatim>\<open>for i in range(1, self.retries + 1)\<close>, with \<open>k\<close> passes left. Falling out of
  the loop returns \<^verbatim>\<open>None\<close>.
\<close>

fun attempts ::
  "string \<Rightarrow> llm \<Rightarrow> string \<Rightarrow> string list \<Rightarrow> nat \<Rightarrow> nat
     \<Rightarrow> (exn + chess_move option) \<times> llm" where
  "attempts vendor_name p prompt legal 0 i = (Inr None, p)"
| "attempts vendor_name p prompt legal (Suc k) i =
     (case one_attempt vendor_name p prompt legal i of
        (Raise e, p') \<Rightarrow> (Inl e, p')
      | (Return mv, p') \<Rightarrow> (Inr (Some mv), p')
      | (Continue, p') \<Rightarrow> attempts vendor_name p' prompt legal k (Suc i))"

text \<open>
  The two classes have the same \<^verbatim>\<open>get_next_move\<close> up to the client they call and the
  vendor named in their messages.
\<close>

definition llm_next_move ::
  "string \<Rightarrow> llm \<Rightarrow> string \<Rightarrow> string list \<Rightarrow> string list
     \<Rightarrow> (exn + chess_move option) \<times> llm" where
  "llm_next_move vendor_name p board_fen_str history legal =
     (let prompt = get_chess_prompt board_fen_str history legal
      in attempts vendor_name p prompt legal (retries p) 1)"

definition anthropic_get_next_move ::
  "llm \<Rightarrow> string \<Rightarrow> string list \<Rightarrow> string list \<Rightarrow> (exn + chess_move option) \<times> llm" where
  "anthropic_get_next_move = llm_next_move ''Anthropic''"

definition openai_get_next_move ::
  "llm \<Rightarrow> string \<Rightarrow> string list \<Rightarrow> string list \<Rightarrow> (exn + chess_move option) \<times> llm" where
  "openai_get_next_move = llm_next_move ''OpenAI''"

text \<open>
  Dynamic dispatch of \<^verbatim>\<open>player.get_next_move\<close>. A returned \<^verbatim>\<open>None\<close> makes the controller's
  next attribute access raise \<^verbatim>\<open>AttributeError\<close> inside its \<^verbatim>\<open>try\<close> block, before anything
  is changed; it is passed on as that exception.
\<close>

definition dispatch_get_next_move ::
  "llm \<Rightarrow> string \<Rightarrow> string list \<Rightarrow> string list \<Rightarrow> (exn + chess_move) \<times> llm" where
  "dispatch_get_next_move p board_fen_str history legal =
     (case (case llm_class p of
              AnthropicLLM \<Rightarrow> anthropic_get_next_move p board_fen_str history legal
            | OpenAILLM \<Rightarrow> openai_get_next_move p board_fen_str history legal) of
        (Inl e, p') \<Rightarrow> (Inl e, p')
      | (Inr None, p') \<Rightarrow>
          (Inl (AttributeError (quoted ''NoneType'' @ '' object has no attribute'')), p')
      | (Inr (Some mv), p') \<Rightarrow> (Inr mv, p'))"

section \<open>A stand-in for the rules engine\<close>

text \<open>
  To run the orchestrator on concrete matches, the chess library is replaced by a small
  opening book. A board is the list of moves pushed so far, a move is its UCI string. The
  legal moves are those of chess, in the library's order, for the first move of either
  side; after that the book only knows the line of Fool's mate (1. f3 e5 2. g4 Qh4\#) and
  Scholar's mate is recognised as a final position. Nothing below depends on more.
\<close>

definition white_first_moves :: "string list" where
  "white_first_moves =
     [''g1h3'', ''g1f3'', ''b1c3'', ''b1a3'', ''h2h3'', ''g2g3'', ''f2f3'', ''e2e3'', ''d2d3'',
      ''c2c3'', ''b2b3'', ''a2a3'', ''h2h4'', ''g2g4'', ''f2f4'', ''e2e4'', ''d2d4'', ''c2c4'',
      ''b2b4'', ''a2a4'']"

definition black_first_moves :: "string list" where
  "black_first_moves =
     [''g8h6'', ''g8f6'', ''b8c6'', ''b8a6'', ''h7h6'', ''g7g6'', ''f7f6'', ''e7e6'', ''d7d6'',
      ''c7c6'', ''b7b6'', ''a7a6'', ''h7h5'', ''g7g5'', ''f7f5'', ''e7e5'', ''d7d5'', ''c7c5'',
      ''b7b5'', ''a7a5'']"

definition fools_mate :: "string list" where
  "fools_mate = [''f2f3'', ''e7e5'', ''g2g4'', ''d8h4'']"

definition scholars_mate :: "string list" where
  "scholars_mate = [''e2e4'', ''e7e5'', ''d1h5'', ''b8c6'', ''f1c4'', ''g8f6'', ''h5f7'']"

definition book_legal_moves :: "string list \<Rightarrow> string list" where
  "book_legal_moves b =
     (if b = [] then white_first_moves
      else if length b = 1 then black_first_moves
      else if b = take 2 fools_mate then [''g2g4'']
      else if b = take 3 fools_mate then [''d8h4'']
      else [])"

definition book_san :: "string list \<Rightarrow> string \<Rightarrow> string" where
  "book_san b m =
     (if m = ''d8h4'' then ''Qh4#''
      else if take 2 m \<in> {''g1'', ''b1'', ''g8'', ''b8''} then ''N'' @ drop 2 m
      else drop 2 m)"

definition book_parse_san :: "string list \<Rightarrow> string \<Rightarrow> string option" where
  "book_parse_san b s = find (\<lambda>m. book_san b m = s) (book_legal_moves b)"

definition book_from_uci :: "string \<Rightarrow> string option" where
  "book_from_uci s = (if length s = 4 \<or> length s = 5 then Some s else None)"

definition book_is_checkmate :: "string list \<Rightarrow> bool" where
  "book_is_checkmate b = (b = fools_mate \<or> b = scholars_mate)"

definition book_fen :: "string list \<Rightarrow> string" where
  "book_fen b =
     (if b = [] then ''rnbqkbnr/pppppppp/8/8/8/8/PPPPPPPP/RNBQKBNR w KQkq - 0 1''
      else ''startpos moves '' @ join '' '' b)"

definition header_line :: "string \<times> string \<Rightarrow> string" where
  "header_line h = ''['' @ fst h @ '' '' @ [CHR 0x22] @ snd h @ [CHR 0x22] @ '']'' @ nl"

fun movetext :: "string list \<Rightarrow> (string \<times> string) list \<Rightarrow> string" where
  "movetext b [] = []"
| "movetext b ((m, c) # ns) =
     (if even (length b) then str_nat (length b div 2 + 1) @ ''. '' else [])
     @ book_san b m @ '' '' @ (if c = [] then [] else ''{ '' @ c @ '' } '')
     @ movetext (b @ [m]) ns"

definition book_pgn_str :: "(string \<times> string) list \<Rightarrow> (string \<times> string) list \<Rightarrow> string" where
  "book_pgn_str headers ns =
     concat (map header_line headers) @ nl @ movetext [] ns
     @ (case map_of headers ''Result'' of Some r \<Rightarrow> r | None \<Rightarrow> ''*'')"

text \<open>Two decimals for the values used below (Python rounds ties on the binary value).\<close>

definition book_format_2f :: "real \<Rightarrow> string" where
  "book_format_2f x =
     (let n = \<lfloor>\<bar>x\<bar> * 100 + 1 / 2\<rfloor>
      in (if x < 0 \<and> n \<noteq> 0 then ''-'' else []) @ str_int (n div 100) @ ''.''
         @ zero_pad 2 (str_int (n mod 100)))"

definition book_env :: "(string list, string, llm) env" where
  "book_env =
     \<lparr>initial_board = [],
      board_turn = (\<lambda>b. even (length b)),
      board_legal_moves = book_legal_moves,
      board_push = (\<lambda>b m. b @ [m]),
      board_is_game_over = book_is_checkmate,
      board_is_checkmate = book_is_checkmate,
      board_fen = book_fen,
      board_san = book_san,
      board_parse_san = book_parse_san,
      move_uci = (\<lambda>m. m),
      move_from_uci = book_from_uci,
      pgn_str = book_pgn_str,
      format_2f = book_format_2f,
      py_sum = sum_list,
      py_truediv = (\<lambda>x n. x / real_of_int n),
      type_name = (\<lambda>p. class_name (llm_class p)),
      llm_get_next_move = dispatch_get_next_move\<rparr>"

text \<open>Clients for the scenarios: every call answers at once with the same reply.\<close>

definition always_reply :: "real \<Rightarrow> api_reply \<Rightarrow> nat \<Rightarrow> string \<Rightarrow> api_outcome" where
  "always_reply elapsed reply k prompt = ApiReturns elapsed reply"

definition good_reply :: "string \<Rightarrow> api_reply" where
  "good_reply m = JsonObject (Some m) (Some ''book move'') (Some 1)"

definition a_day :: datetime where
  "a_day = \<lparr>dt_year = 2024, dt_month = 5, dt_day = 17\<rparr>"

section \<open>Notions used to state the properties\<close>

text \<open>The call the controller makes to the proposer of the side to move.\<close>

definition ask_player ::
  "('b, 'm, 'p) env \<Rightarrow> ('b, 'p) game_controller \<Rightarrow> player_ref \<Rightarrow> (exn + chess_move) \<times> 'p" where
  "ask_player E c player =
     llm_get_next_move E (player_of c player) (get_fen E (game c))
       (map (\<lambda>(_, mv, _). mv) (move_history (game c)))
       (map (board_san E (board (game c))) (board_legal_moves E (board (game c))))"

text \<open>
  The move object that \<^verbatim>\<open>make_move\<close> tests for a proposed string: \<^verbatim>\<open>parse_san\<close>, then
  \<^verbatim>\<open>uci()\<close>, then \<^verbatim>\<open>Move.from_uci\<close>.
\<close>

definition proposed_move :: "('b, 'm, 'p) env \<Rightarrow> 'b \<Rightarrow> string \<Rightarrow> 'm option" where
  "proposed_move E b s =
     (case board_parse_san E b s of
        None \<Rightarrow> None
      | Some m \<Rightarrow> move_from_uci E (move_uci E m))"

text \<open>A side's clock (zero stands in when the match is untimed).\<close>

definition clock_of :: "('b, 'p) game_controller \<Rightarrow> string \<Rightarrow> real" where
  "clock_of c col = (case time_remaining c of Some tr \<Rightarrow> tr col | None \<Rightarrow> 0)"

text \<open>The thinking time that the pass of the loop starting in \<open>c\<close> charges, if it charges one.\<close>

definition charge_of :: "('b, 'm, 'p) env \<Rightarrow> ('b, 'p) game_controller \<Rightarrow> real option" where
  "charge_of E c =
     (case fst (is_game_finished E c) of
        Inr False \<Rightarrow>
          (if time_remaining c = None then None
           else case fst (ask_player E c (get_current_player E c)) of
                  Inr mv \<Rightarrow> Some (thinking_time mv)
                | Inl e \<Rightarrow> None)
      | _ \<Rightarrow> None)"

definition charge_nonneg :: "('b, 'm, 'p) env \<Rightarrow> ('b, 'p) game_controller \<Rightarrow> bool" where
  "charge_nonneg E c = (case charge_of E c of Some t \<Rightarrow> 0 \<le> t | None \<Rightarrow> True)"

text \<open>
  In a list of successive states: a state whose clock for \<open>col\<close> was changed by the pass
  before it and stands at zero or below is the last one.
\<close>

fun charges_stop :: "string \<Rightarrow> ('b, 'p) game_controller list \<Rightarrow> bool" where
  "charges_stop col (s # t # rest) =
     ((if clock_of t col \<noteq> clock_of s col \<and> clock_of t col \<le> 0 then rest = [] else True)
      \<and> charges_stop col (t # rest))"
| "charges_stop col _ = True"

definition moves_counted :: "('b, 'p) game_controller \<Rightarrow> bool" where
  "moves_counted c = (total_moves (game_stats c) = int (length (move_history (game c))))"

text \<open>
  The mean of a list of samples as the code computes it, \<^verbatim>\<open>sum(xs) / len(xs)\<close>; for no
  sample, the initial entry \<open>0.0\<close>.
\<close>

definition py_mean :: "('b, 'm, 'p) env \<Rightarrow> real list \<Rightarrow> real" where
  "py_mean E xs = (if xs = [] then 0 else py_truediv E (py_sum E xs) (int (length xs)))"

text \<open>
  The thinking times that the proposer of \<open>col\<close> reported for the moves that \<open>col\<close>
  played in the first \<open>n\<close> passes of the loop from \<open>c\<close>, in order. A pass that leaves
  the loop plays no move.
\<close>

fun played_samples ::
  "('b, 'm, 'p) env \<Rightarrow> nat \<Rightarrow> ('b, 'p) game_controller \<Rightarrow> string \<Rightarrow> real list" where
  "played_samples E 0 c col = []"
| "played_samples E (Suc n) c col =
     (case loop_iteration E c of
        (Some x, c') \<Rightarrow> []
      | (None, c') \<Rightarrow>
          (if col = color_to_move E c
           then (case fst (ask_player E c (get_current_player E c)) of
                   Inr mv \<Rightarrow> [thinking_time mv]
                 | Inl e \<Rightarrow> [])
           else [])
          @ played_samples E n c' col)"

text \<open>The recorded statistics of \<open>col\<close> agree with its recorded sample list.\<close>

definition stats_match :: "('b, 'm, 'p) env \<Rightarrow> string \<Rightarrow> ('b, 'p) game_controller \<Rightarrow> bool" where
  "stats_match E col c =
     (average_time_per_move (game_stats c) col = py_mean E (move_times c col)
      \<and> longest_think_time (game_stats c) col = Max (insert 0 (set (move_times c col))))"

text \<open>
  A reply that cannot be read: not JSON, or an object without its move, or an object
  whose explanation or confidence is missing and is looked up, which happens when its move
  is in the list or the attempt is the last one (\<open>final\<close>).
\<close>

fun unreadable :: "string list \<Rightarrow> bool \<Rightarrow> api_reply \<Rightarrow> bool" where
  "unreadable legal final (JsonInvalid msg) = True"
| "unreadable legal final (JsonObject mv ex cf) =
     (case mv of
        None \<Rightarrow> True
      | Some m \<Rightarrow> (m \<in> set legal \<or> final) \<and> (ex = None \<or> cf = None))"

text \<open>The next \<open>j\<close> replies of the client each name a move outside the list.\<close>

fun illegal_replies :: "llm \<Rightarrow> string \<Rightarrow> string list \<Rightarrow> nat \<Rightarrow> bool" where
  "illegal_replies p prompt legal 0 = True"
| "illegal_replies p prompt legal (Suc j) =
     ((case api p (api_calls p) prompt of
         ApiReturns elapsed (JsonObject (Some m) ex cf) \<Rightarrow> m \<notin> set legal
       | _ \<Rightarrow> False)
      \<and> illegal_replies (p\<lparr>api_calls := api_calls p + 1\<rparr>) prompt legal j)"

text \<open>
  Two successive states of the loop: either no move was played between them, or exactly
  one record was appended to the history and the counter went up by one.
\<close>

definition one_more_move :: "('b, 'p) game_controller \<Rightarrow> ('b, 'p) game_controller \<Rightarrow> bool" where
  "one_more_move s t =
     (total_moves (game_stats t) = total_moves (game_stats s)
        \<and> move_history (game t) = move_history (game s)
      \<or> total_moves (game_stats t) = total_moves (game_stats s) + 1
        \<and> move_history (game t) = move_history (game s) @ [last (move_history (game t))])"

section \<open>Example matches\<close>

text \<open>
  Concrete matches on the opening book, with proposers of the two classes whose clients
  are scripted. \<open>scripted\<close> answers the first call with one move and later calls with
  another; \<open>broken_then_good\<close> answers the first call with text that is not JSON and
  every later call with a legal move.
\<close>

definition scripted :: "real \<Rightarrow> string \<Rightarrow> string \<Rightarrow> nat \<Rightarrow> string \<Rightarrow> api_outcome" where
  "scripted elapsed first later k prompt =
     ApiReturns elapsed (good_reply (if k = 0 then first else later))"

definition broken_then_good :: "nat \<Rightarrow> string \<Rightarrow> api_outcome" where
  "broken_then_good k prompt =
     (if k = 0 then ApiReturns 1 (JsonInvalid ''Expecting value'')
      else ApiReturns 2 (good_reply ''e4''))"

text \<open>
  \<open>illegal_then_broken\<close> answers the first call with a move that white cannot play,
  the second with text that is not JSON, and every later call with a legal move.
\<close>

definition illegal_then_broken :: "nat \<Rightarrow> string \<Rightarrow> api_outcome" where
  "illegal_then_broken k prompt =
     (if k = 0 then ApiReturns 1 (good_reply ''e5'')
      else if k = 1 then ApiReturns 2 (JsonInvalid ''Expecting value'')
      else ApiReturns 3 (good_reply ''e4''))"

text \<open>Untimed, at most one move; both sides answer with a legal move.\<close>

definition match_a :: "(string list, llm) game_controller" where
  "match_a =
     GameController_init book_env a_day
       (BaseLLM_init OpenAILLM (always_reply 2 (good_reply ''e4'')))
       (BaseLLM_init AnthropicLLM (always_reply 3 (good_reply ''e5''))) None (Some 1)"

text \<open>Untimed, no move limit; the sides play Fool's mate.\<close>

definition match_mate :: "(string list, llm) game_controller" where
  "match_mate =
     GameController_init book_env a_day
       (BaseLLM_init OpenAILLM (scripted 2 ''f3'' ''g4''))
       (BaseLLM_init AnthropicLLM (scripted 3 ''e5'' ''Qh4#'')) None None"

text \<open>Ten seconds a side; white answers with a legal move after fifteen seconds.\<close>

definition match_d :: "(string list, llm) game_controller" where
  "match_d =
     GameController_init book_env a_day
       (BaseLLM_init OpenAILLM (always_reply 15 (good_reply ''e4'')))
       (BaseLLM_init AnthropicLLM (always_reply 3 (good_reply ''e5''))) (Some 10) None"

text \<open>Ten seconds a side; white answers after four seconds, black after twelve.\<close>

definition match_t :: "(string list, llm) game_controller" where
  "match_t =
     GameController_init book_env a_day
       (BaseLLM_init OpenAILLM (always_reply 4 (good_reply ''e4'')))
       (BaseLLM_init AnthropicLLM (always_reply 12 (good_reply ''e5''))) (Some 10) None"

text \<open>Untimed; white's first reply is not JSON.\<close>

definition match_bad :: "(string list, llm) game_controller" where
  "match_bad =
     GameController_init book_env a_day
       (BaseLLM_init AnthropicLLM broken_then_good)
       (BaseLLM_init OpenAILLM (always_reply 3 (good_reply ''e5''))) None None"

text \<open>Untimed; white's first reply is an illegal move, its second is not JSON.\<close>

definition match_retry :: "(string list, llm) game_controller" where
  "match_retry =
     GameController_init book_env a_day
       (BaseLLM_init AnthropicLLM illegal_then_broken)
       (BaseLLM_init OpenAILLM (always_reply 3 (good_reply ''e5''))) None None"

text \<open>A controller with a recorded result, and one that differs from it outside the game
  and the statistics.\<close>

definition drawn_match :: "(string list, llm) game_controller" where
  "drawn_match = set_result match_a ''1/2-1/2''"

definition drawn_match_other :: "(string list, llm) game_controller" where
  "drawn_match_other =
     drawn_match\<lparr>time_remaining := Some (\<lambda>_. 30), move_times := (\<lambda>_. [1]),
                  match_start_time := Some a_day\<rparr>"

section \<open>The branches of each operation\<close>

text \<open>
  Each operation of the controller ends in one of a few ways. The case rules below name
  them, with the state each one leaves.
\<close>

lemma make_move_cases:
  obtains (rejected) "make_move E g u s e = (False, g)"
      "move_from_uci E u = None \<or>
       (\<exists>m. move_from_uci E u = Some m \<and> m \<notin> set (board_legal_moves E (board g)))"
  | (applied) m where "move_from_uci E u = Some m" "m \<in> set (board_legal_moves E (board g))"
      "make_move E g u s e =
         (True, g\<lparr>board := board_push E (board g) m, move_history := move_history g @ [(u, s, e)]\<rparr>)"
proof (cases "move_from_uci E u")
  case None
  then show ?thesis by (intro rejected) (simp_all add: make_move_def)
next
  case (Some m)
  show ?thesis
  proof (cases "m \<in> set (board_legal_moves E (board g))")
    case True
    with Some show ?thesis by (intro applied[of m]) (simp_all add: make_move_def)
  next
    case False
    with Some show ?thesis by (intro rejected) (simp_all add: make_move_def)
  qed
qed

lemma apply_proposed_cases:
  obtains (rejected) "apply_proposed E c mr = (None, c)"
     "proposed_move E (board (game c)) (move mr) = None \<or>
      (\<exists>u. proposed_move E (board (game c)) (move mr) = Some u \<and> u \<notin> set (board_legal_moves E (board (game c))))"
  | (applied) m u where
      "board_parse_san E (board (game c)) (move mr) = Some m"
      "proposed_move E (board (game c)) (move mr) = Some u"
      "u \<in> set (board_legal_moves E (board (game c)))"
      "apply_proposed E c mr =
         (Some (mr\<lparr>move := move_uci E m\<rparr>),
          c\<lparr>game := (game c)\<lparr>board := board_push E (board (game c)) u,
                               move_history := move_history (game c) @
                                 [(move_uci E m, move mr,
                                   explanation mr @ '' (confidence: '' @ format_2f E (confidence mr) @ '')'')]\<rparr>\<rparr>)"
proof (cases "board_parse_san E (board (game c)) (move mr)")
  case None
  then show ?thesis
    by (intro rejected) (simp_all add: apply_proposed_def proposed_move_def)
next
  case (Some m)
  let ?expl = "explanation mr @ '' (confidence: '' @ format_2f E (confidence mr) @ '')''"
  show ?thesis
  proof (cases rule: make_move_cases[of E "game c" "move_uci E m" "move mr" ?expl])
    case rejected
    with Some show ?thesis
      by (intro that(1)) (simp_all add: apply_proposed_def proposed_move_def Let_def)
  next
    case (applied u)
    with Some show ?thesis
      by (intro that(2)[of m u]) (simp_all add: apply_proposed_def proposed_move_def Let_def)
  qed
qed

lemma get_next_move_cases:
  obtains (failed) e p' where "ask_player E c player = (Inl e, p')"
      "get_next_move E c player color = (None, set_player c player p')"
  | (timeout) mr p' tr where "ask_player E c player = (Inr mr, p')" "time_remaining c = Some tr"
      "tr color - thinking_time mr \<le> 0"
      "get_next_move E c player color =
         (None, set_termination ((set_player c player p')\<lparr>time_remaining := Some (tr(color := tr color - thinking_time mr))\<rparr>)
                  (color @ '' lost on time''))"
  | (timed) mr p' tr where "ask_player E c player = (Inr mr, p')" "time_remaining c = Some tr"
      "\<not> tr color - thinking_time mr \<le> 0"
      "get_next_move E c player color =
         apply_proposed E ((set_player c player p')\<lparr>time_remaining := Some (tr(color := tr color - thinking_time mr))\<rparr>) mr"
  | (untimed) mr p' where "ask_player E c player = (Inr mr, p')" "time_remaining c = None"
      "get_next_move E c player color = apply_proposed E (set_player c player p') mr"
proof (cases "ask_player E c player")
  case (Pair answer p')
  show ?thesis
  proof (cases answer)
    case (Inl e)
    with Pair show ?thesis
      by (intro failed[of e p']) (simp_all add: get_next_move_def ask_player_def Let_def)
  next
    case (Inr mr)
    have tr: "time_remaining (set_player c player p') = time_remaining c"
      by (cases player) simp_all
    show ?thesis
    proof (cases "time_remaining c")
      case None
      with Pair Inr tr show ?thesis
        by (intro untimed[of mr p']) (simp_all add: get_next_move_def ask_player_def Let_def)
    next
      case (Some trm)
      show ?thesis
      proof (cases "trm color - thinking_time mr \<le> 0")
        case True
        with Pair Inr tr Some show ?thesis
          by (intro timeout[of mr p' trm]) (simp_all add: get_next_move_def ask_player_def Let_def)
      next
        case False
        with Pair Inr tr Some show ?thesis
          by (intro timed[of mr p' trm]) (simp_all add: get_next_move_def ask_player_def Let_def)
      qed
    qed
  qed
qed

lemma loop_iteration_cases:
  obtains (raised) e where "fst (is_game_finished E c) = Inl e"
      "loop_iteration E c = (Some (Raised e), set_termination c ''Normal chess ending'')"
  | (finished) "fst (is_game_finished E c) = Inr True"
      "loop_iteration E c = (Some Finished, set_termination c ''Maximum moves reached'')"
  | (broke) c2 where "fst (is_game_finished E c) = Inr False"
      "get_next_move E c (get_current_player E c) (color_to_move E c) = (None, c2)"
      "loop_iteration E c =
         (Some Broke,
          set_termination (set_result c2 (if color_to_move E c = ''white'' then ''0-1'' else ''1-0''))
            (''Invalid move by '' @ color_to_move E c))"
  | (moved) m c2 where "fst (is_game_finished E c) = Inr False"
      "get_next_move E c (get_current_player E c) (color_to_move E c) = (Some m, c2)"
      "loop_iteration E c = (None, update_stats E c2 m (color_to_move E c))"
proof (cases "is_game_over E (game c)")
  case True
  then show ?thesis
    by (intro raised) (simp_all add: is_game_finished_def loop_iteration_def py_call_str_def Let_def)
next
  case over: False
  show ?thesis
  proof (cases "truthy (max_moves c) \<and> total_moves (game_stats c) \<ge> the (max_moves c)")
    case True
    with over show ?thesis
      by (intro finished) (simp_all add: is_game_finished_def loop_iteration_def)
  next
    case False
    with over have fin: "is_game_finished E c = (Inr False, c)"
      by (auto simp add: is_game_finished_def)
    show ?thesis
    proof (cases "get_next_move E c (get_current_player E c) (color_to_move E c)")
      case (Pair r c2)
      show ?thesis
      proof (cases r)
        case None
        with Pair fin show ?thesis
          by (intro broke[of c2]) (simp_all add: loop_iteration_def Let_def)
      next
        case (Some m)
        with Pair fin show ?thesis
          by (intro moved[of m c2]) (simp_all add: loop_iteration_def Let_def)
      qed
    qed
  qed
qed

section \<open>What each operation leaves unchanged\<close>

lemma set_player_frame [simp]:
  "game (set_player c player p) = game c"
  "game_stats (set_player c player p) = game_stats c"
  "move_times (set_player c player p) = move_times c"
  "time_remaining (set_player c player p) = time_remaining c"
  "max_moves (set_player c player p) = max_moves c"
  by (cases player; simp)+

lemma set_termination_frame [simp]:
  "game (set_termination c t) = game c"
  "move_times (set_termination c t) = move_times c"
  "time_remaining (set_termination c t) = time_remaining c"
  "total_moves (game_stats (set_termination c t)) = total_moves (game_stats c)"
  "average_time_per_move (game_stats (set_termination c t)) = average_time_per_move (game_stats c)"
  "longest_think_time (game_stats (set_termination c t)) = longest_think_time (game_stats c)"
  "stats_result (game_stats (set_termination c t)) = stats_result (game_stats c)"
  "stats_termination (game_stats (set_termination c t)) = Some t"
  by (simp_all add: set_termination_def)

lemma set_result_frame [simp]:
  "game (set_result c r) = game c"
  "move_times (set_result c r) = move_times c"
  "time_remaining (set_result c r) = time_remaining c"
  "total_moves (game_stats (set_result c r)) = total_moves (game_stats c)"
  "average_time_per_move (game_stats (set_result c r)) = average_time_per_move (game_stats c)"
  "longest_think_time (game_stats (set_result c r)) = longest_think_time (game_stats c)"
  "stats_result (game_stats (set_result c r)) = Some r"
  "stats_termination (game_stats (set_result c r)) = stats_termination (game_stats c)"
  by (simp_all add: set_result_def)

lemma update_stats_frame [simp]:
  "game (update_stats E c m col) = game c"
  "time_remaining (update_stats E c m col) = time_remaining c"
  "total_moves (game_stats (update_stats E c m col)) = total_moves (game_stats c) + 1"
  "move_times (update_stats E c m col) = (move_times c)(col := move_times c col @ [thinking_time m])"
  "stats_result (game_stats (update_stats E c m col)) = stats_result (game_stats c)"
  by (simp_all add: update_stats_def Let_def)

lemma apply_proposed_frame:
  assumes "apply_proposed E c mr = (r, c')"
  shows "game_stats c' = game_stats c" and "move_times c' = move_times c"
    and "time_remaining c' = time_remaining c"
  using assms by (cases rule: apply_proposed_cases[of E c mr]; auto)+

lemma apply_proposed_None:
  assumes "apply_proposed E c mr = (None, c')"
  shows "c' = c"
  using assms by (cases rule: apply_proposed_cases[of E c mr]; auto)

lemma apply_proposed_Some:
  assumes "apply_proposed E c mr = (Some m, c')"
  shows "thinking_time m = thinking_time mr"
    and "\<exists>x. move_history (game c') = move_history (game c) @ [x]"
  using assms by (cases rule: apply_proposed_cases[of E c mr]; auto)+

lemma get_next_move_frame:
  assumes "get_next_move E c player color = (r, c')"
  shows "total_moves (game_stats c') = total_moves (game_stats c)"
    and "average_time_per_move (game_stats c') = average_time_per_move (game_stats c)"
    and "longest_think_time (game_stats c') = longest_think_time (game_stats c)"
    and "stats_result (game_stats c') = stats_result (game_stats c)"
    and "move_times c' = move_times c"
proof -
  have "total_moves (game_stats c') = total_moves (game_stats c)
      \<and> average_time_per_move (game_stats c') = average_time_per_move (game_stats c)
      \<and> longest_think_time (game_stats c') = longest_think_time (game_stats c)
      \<and> stats_result (game_stats c') = stats_result (game_stats c)
      \<and> move_times c' = move_times c"
  proof (cases rule: get_next_move_cases[of E c player color])
    case (failed e p')
    with assms show ?thesis by auto
  next
    case (timeout mr p' tr)
    with assms show ?thesis by auto
  next
    case (timed mr p' tr)
    with assms have "apply_proposed E
        ((set_player c player p')\<lparr>time_remaining := Some (tr(color := tr color - thinking_time mr))\<rparr>) mr
        = (r, c')" by simp
    from apply_proposed_frame(1,2)[OF this] show ?thesis by simp
  next
    case (untimed mr p')
    with assms have "apply_proposed E (set_player c player p') mr = (r, c')" by simp
    from apply_proposed_frame(1,2)[OF this] show ?thesis by simp
  qed
  then show "total_moves (game_stats c') = total_moves (game_stats c)"
    and "average_time_per_move (game_stats c') = average_time_per_move (game_stats c)"
    and "longest_think_time (game_stats c') = longest_think_time (game_stats c)"
    and "stats_result (game_stats c') = stats_result (game_stats c)"
    and "move_times c' = move_times c" by simp_all
qed

lemma get_next_move_None:
  assumes "get_next_move E c player color = (None, c')"
  shows "game c' = game c"
proof (cases rule: get_next_move_cases[of E c player color])
  case (failed e p')
  with assms show ?thesis by auto
next
  case (timeout mr p' tr)
  with assms show ?thesis by auto
next
  case (timed mr p' tr)
  with assms have "apply_proposed E
      ((set_player c player p')\<lparr>time_remaining := Some (tr(color := tr color - thinking_time mr))\<rparr>) mr
      = (None, c')" by simp
  from apply_proposed_None[OF this] show ?thesis by simp
next
  case (untimed mr p')
  with assms have "apply_proposed E (set_player c player p') mr = (None, c')" by simp
  from apply_proposed_None[OF this] show ?thesis by simp
qed

lemma get_next_move_Some:
  assumes "get_next_move E c player color = (Some m, c')"
  shows "\<exists>x. move_history (game c') = move_history (game c) @ [x]"
    and "\<exists>mr p'. ask_player E c player = (Inr mr, p') \<and> thinking_time m = thinking_time mr"
proof -
  have "(\<exists>x. move_history (game c') = move_history (game c) @ [x])
     \<and> (\<exists>mr p'. ask_player E c player = (Inr mr, p') \<and> thinking_time m = thinking_time mr)"
  proof (cases rule: get_next_move_cases[of E c player color])
    case (failed e p')
    with assms show ?thesis by auto
  next
    case (timeout mr p' tr)
    with assms show ?thesis by auto
  next
    case (timed mr p' tr)
    with assms have "apply_proposed E
        ((set_player c player p')\<lparr>time_remaining := Some (tr(color := tr color - thinking_time mr))\<rparr>) mr
        = (Some m, c')" by simp
    from apply_proposed_Some[OF this] timed(1) show ?thesis by simp
  next
    case (untimed mr p')
    with assms have "apply_proposed E (set_player c player p') mr = (Some m, c')" by simp
    from apply_proposed_Some[OF this] untimed(1) show ?thesis by simp
  qed
  then show "\<exists>x. move_history (game c') = move_history (game c) @ [x]"
    and "\<exists>mr p'. ask_player E c player = (Inr mr, p') \<and> thinking_time m = thinking_time mr"
    by simp_all
qed

lemma moves_counted_iteration:
  assumes "moves_counted c"
  shows "moves_counted (snd (loop_iteration E c))"
proof (cases rule: loop_iteration_cases[of E c])
  case (raised e)
  with assms show ?thesis by (simp add: moves_counted_def)
next
  case finished
  with assms show ?thesis by (simp add: moves_counted_def)
next
  case (broke c2)
  with assms get_next_move_None[OF broke(2)] get_next_move_frame(1)[OF broke(2)]
  show ?thesis by (simp add: moves_counted_def)
next
  case (moved m c2)
  with assms get_next_move_Some(1)[OF moved(2)] get_next_move_frame(1)[OF moved(2)]
  show ?thesis by (auto simp add: moves_counted_def)
qed

lemma loop_states_Suc:
  "loop_states E (Suc n) c =
     c # (if fst (loop_iteration E c) = None then loop_states E n (snd (loop_iteration E c))
          else [snd (loop_iteration E c)])"
  by (cases "loop_iteration E c") (auto split: option.splits)

lemma moves_counted_states:
  "moves_counted c \<Longrightarrow> list_all moves_counted (loop_states E n c)"
proof (induction n arbitrary: c)
  case 0
  then show ?case by simp
next
  case (Suc n)
  from Suc.prems have "moves_counted (snd (loop_iteration E c))"
    by (rule moves_counted_iteration)
  with Suc show ?case by (simp add: loop_states_Suc del: loop_states.simps)
qed

section \<open>The states of the loop\<close>

lemma hd_loop_states [simp]: "hd (loop_states E n c) = c"
  by (cases n) simp_all

lemma loop_states_not_Nil [simp]: "loop_states E n c \<noteq> []"
  by (cases n) simp_all

lemma successively_loop_states:
  assumes "\<And>s. P s (snd (loop_iteration E s))"
  shows "successively P (loop_states E n c)"
proof (induction n arbitrary: c)
  case 0
  then show ?case by simp
next
  case (Suc n)
  show ?case
    using Suc[of "snd (loop_iteration E c)"] assms[of c]
    by (simp add: loop_states_Suc successively_Cons del: loop_states.simps)
qed

lemma one_more_move_iteration: "one_more_move c (snd (loop_iteration E c))"
proof (cases rule: loop_iteration_cases[of E c])
  case (raised e)
  then show ?thesis by (simp add: one_more_move_def)
next
  case finished
  then show ?thesis by (simp add: one_more_move_def)
next
  case (broke c2)
  with get_next_move_None[OF broke(2)] get_next_move_frame(1)[OF broke(2)]
  show ?thesis by (simp add: one_more_move_def)
next
  case (moved m c2)
  with get_next_move_Some(1)[OF moved(2)] get_next_move_frame(1)[OF moved(2)]
  show ?thesis by (auto simp add: one_more_move_def)
qed

lemma update_stats_average:
  "average_time_per_move (game_stats (update_stats E c m col)) =
     (average_time_per_move (game_stats c))
       (col := py_mean E (move_times c col @ [thinking_time m]))"
  by (simp add: update_stats_def Let_def py_mean_def)

lemma update_stats_longest:
  "longest_think_time (game_stats (update_stats E c m col)) =
     (longest_think_time (game_stats c))
       (col := max (longest_think_time (game_stats c) col) (thinking_time m))"
  by (auto simp add: update_stats_def Let_def max_def)

lemma Max_with_zero_snoc:
  "Max (insert 0 (set (xs @ [x]))) = max (Max (insert 0 (set xs))) (x::real)"
proof -
  have "Max (insert x (insert 0 (set xs))) = max x (Max (insert 0 (set xs)))"
    by (rule Max_insert) simp_all
  moreover have "insert 0 (set (xs @ [x])) = insert x (insert 0 (set xs))"
    by auto
  ultimately show ?thesis by (simp only: max.commute)
qed

lemma stats_match_update:
  assumes "stats_match E col c"
  shows "stats_match E col (update_stats E c m color)"
proof (cases "col = color")
  case False
  with assms show ?thesis
    by (simp add: stats_match_def update_stats_average update_stats_longest)
next
  case True
  from assms have "longest_think_time (game_stats c) col = Max (insert 0 (set (move_times c col)))"
    by (simp add: stats_match_def)
  then show ?thesis
    unfolding stats_match_def True[symmetric]
    by (simp only: update_stats_average update_stats_longest update_stats_frame(4)
        fun_upd_same Max_with_zero_snoc simp_thms)
qed

lemma stats_match_iteration:
  assumes "stats_match E col c"
  shows "stats_match E col (snd (loop_iteration E c))"
proof (cases rule: loop_iteration_cases[of E c])
  case (raised e)
  with assms show ?thesis by (simp add: stats_match_def)
next
  case finished
  with assms show ?thesis by (simp add: stats_match_def)
next
  case (broke c2)
  with assms get_next_move_frame[OF broke(2)]
  show ?thesis by (simp add: stats_match_def)
next
  case (moved m c2)
  from assms get_next_move_frame[OF moved(2)] have "stats_match E col c2"
    by (simp add: stats_match_def)
  with moved show ?thesis by (simp add: stats_match_update)
qed

lemma list_all_loop_states:
  assumes "\<And>s. P s \<Longrightarrow> P (snd (loop_iteration E s))" and "P c"
  shows "list_all P (loop_states E n c)"
  using assms(2)
proof (induction n arbitrary: c)
  case 0
  then show ?case by simp
next
  case (Suc n)
  from Suc.prems have "P (snd (loop_iteration E c))" by (rule assms(1))
  with Suc show ?case by (simp add: loop_states_Suc del: loop_states.simps)
qed

lemma get_next_move_clock:
  assumes "get_next_move E c player color = (r, c')"
  shows "time_remaining c' = time_remaining c
     \<or> (\<exists>mr p' tr. ask_player E c player = (Inr mr, p') \<and> time_remaining c = Some tr
           \<and> time_remaining c' = Some (tr(color := tr color - thinking_time mr))
           \<and> (r = None \<or> 0 < tr color - thinking_time mr))"
proof (cases rule: get_next_move_cases[of E c player color])
  case (failed e p')
  with assms show ?thesis by auto
next
  case (timeout mr p' tr)
  with assms show ?thesis by auto
next
  case (timed mr p' tr)
  with assms have "apply_proposed E
      ((set_player c player p')\<lparr>time_remaining := Some (tr(color := tr color - thinking_time mr))\<rparr>) mr
      = (r, c')" by simp
  from apply_proposed_frame(3)[OF this] timed show ?thesis by simp
next
  case (untimed mr p')
  with assms have "apply_proposed E (set_player c player p') mr = (r, c')" by simp
  from apply_proposed_frame(3)[OF this] show ?thesis by simp
qed

lemma charge_of_asked:
  assumes "fst (is_game_finished E c) = Inr False" and "time_remaining c = Some tr"
    and "ask_player E c (get_current_player E c) = (Inr mr, p')"
  shows "charge_of E c = Some (thinking_time mr)"
  using assms by (simp add: charge_of_def)

lemma clock_iteration_le:
  assumes "charge_nonneg E c"
  shows "clock_of (snd (loop_iteration E c)) col \<le> clock_of c col"
proof (cases rule: loop_iteration_cases[of E c])
  case (raised e)
  then show ?thesis by (simp add: clock_of_def)
next
  case finished
  then show ?thesis by (simp add: clock_of_def)
next
  case (broke c2)
  from get_next_move_clock[OF broke(2)] show ?thesis
  proof
    assume "time_remaining c2 = time_remaining c"
    with broke show ?thesis by (simp add: clock_of_def)
  next
    assume "\<exists>mr p' tr. ask_player E c (get_current_player E c) = (Inr mr, p') \<and> time_remaining c = Some tr
           \<and> time_remaining c2 = Some (tr(color_to_move E c := tr (color_to_move E c) - thinking_time mr))
           \<and> (None = None \<or> 0 < tr (color_to_move E c) - thinking_time mr)"
    then obtain mr p' tr where a: "ask_player E c (get_current_player E c) = (Inr mr, p')"
      and t: "time_remaining c = Some tr"
      and t2: "time_remaining c2 = Some (tr(color_to_move E c := tr (color_to_move E c) - thinking_time mr))"
      by blast
    from assms charge_of_asked[OF broke(1) t a] have "0 \<le> thinking_time mr"
      by (simp add: charge_nonneg_def)
    with broke t t2 show ?thesis by (simp add: clock_of_def)
  qed
next
  case (moved m c2)
  from get_next_move_clock[OF moved(2)] show ?thesis
  proof
    assume "time_remaining c2 = time_remaining c"
    with moved show ?thesis by (simp add: clock_of_def)
  next
    assume "\<exists>mr p' tr. ask_player E c (get_current_player E c) = (Inr mr, p') \<and> time_remaining c = Some tr
           \<and> time_remaining c2 = Some (tr(color_to_move E c := tr (color_to_move E c) - thinking_time mr))
           \<and> (Some m = None \<or> 0 < tr (color_to_move E c) - thinking_time mr)"
    then obtain mr p' tr where a: "ask_player E c (get_current_player E c) = (Inr mr, p')"
      and t: "time_remaining c = Some tr"
      and t2: "time_remaining c2 = Some (tr(color_to_move E c := tr (color_to_move E c) - thinking_time mr))"
      by blast
    from assms charge_of_asked[OF moved(1) t a] have "0 \<le> thinking_time mr"
      by (simp add: charge_nonneg_def)
    with moved t t2 show ?thesis by (simp add: clock_of_def)
  qed
qed

lemma clock_iteration_positive:
  assumes "fst (loop_iteration E c) = None"
  shows "clock_of (snd (loop_iteration E c)) col = clock_of c col
     \<or> 0 < clock_of (snd (loop_iteration E c)) col"
proof (cases rule: loop_iteration_cases[of E c])
  case (raised e)
  with assms show ?thesis by simp
next
  case finished
  with assms show ?thesis by simp
next
  case (broke c2)
  with assms show ?thesis by simp
next
  case (moved m c2)
  from get_next_move_clock[OF moved(2)] moved(3) show ?thesis
    by (auto simp add: clock_of_def)
qed

lemma loop_states_continue:
  assumes "fst (loop_iteration E c) = None"
  shows "loop_states E (Suc n) c = c # loop_states E n (snd (loop_iteration E c))"
  using assms by (simp add: loop_states_Suc del: loop_states.simps)

lemma loop_states_exit:
  assumes "fst (loop_iteration E c) \<noteq> None"
  shows "loop_states E (Suc n) c = [c, snd (loop_iteration E c)]"
  using assms by (simp add: loop_states_Suc del: loop_states.simps not_None_eq)

lemma charge_nonneg_head:
  assumes "list_all (charge_nonneg E) (butlast (loop_states E (Suc n) c))"
  shows "charge_nonneg E c"
proof (cases "fst (loop_iteration E c) = None")
  case True
  from assms show ?thesis unfolding loop_states_continue[OF True] by simp
next
  case False
  from assms show ?thesis unfolding loop_states_exit[OF False] by simp
qed

lemma charge_nonneg_tail:
  assumes "list_all (charge_nonneg E) (butlast (loop_states E (Suc n) c))"
    and "fst (loop_iteration E c) = None"
  shows "list_all (charge_nonneg E) (butlast (loop_states E n (snd (loop_iteration E c))))"
  using assms by (simp add: loop_states_continue del: loop_states.simps)

lemma clock_bounded_by_start:
  assumes "list_all (charge_nonneg E) (butlast (loop_states E n c))"
  shows "\<forall>s \<in> set (loop_states E n c). clock_of s col \<le> clock_of c col"
  using assms
proof (induction n arbitrary: c)
  case 0
  then show ?case by simp
next
  case (Suc n)
  let ?c' = "snd (loop_iteration E c)"
  have step: "clock_of ?c' col \<le> clock_of c col"
    using charge_nonneg_head[OF Suc.prems] by (rule clock_iteration_le)
  show ?case
  proof (cases "fst (loop_iteration E c) = None")
    case True
    from Suc.IH[OF charge_nonneg_tail[OF Suc.prems True]] step show ?thesis
      unfolding loop_states_continue[OF True] by auto
  next
    case False
    with step show ?thesis
      unfolding loop_states_exit[OF False] by simp
  qed
qed

lemma clocks_sorted:
  assumes "list_all (charge_nonneg E) (butlast (loop_states E n c))"
  shows "sorted_wrt (\<lambda>s t. clock_of t col \<le> clock_of s col) (loop_states E n c)"
  using assms
proof (induction n arbitrary: c)
  case 0
  then show ?case by simp
next
  case (Suc n)
  let ?c' = "snd (loop_iteration E c)"
  from clock_bounded_by_start[OF Suc.prems]
  have first: "\<forall>s \<in> set (loop_states E (Suc n) c). clock_of s col \<le> clock_of c col" .
  show ?case
  proof (cases "fst (loop_iteration E c) = None")
    case True
    from Suc.IH[OF charge_nonneg_tail[OF Suc.prems True]] first show ?thesis
      unfolding loop_states_continue[OF True] by simp
  next
    case False
    from first show ?thesis
      unfolding loop_states_exit[OF False] by simp
  qed
qed

lemma charges_stop_Cons:
  "charges_stop col (s # xs) =
     (xs = [] \<or>
      ((clock_of (hd xs) col \<noteq> clock_of s col \<and> clock_of (hd xs) col \<le> 0 \<longrightarrow> tl xs = [])
       \<and> charges_stop col xs))"
  by (cases xs) simp_all

lemma charges_stop_states: "charges_stop col (loop_states E n c)"
proof (induction n arbitrary: c)
  case 0
  then show ?case by simp
next
  case (Suc n)
  let ?c' = "snd (loop_iteration E c)"
  show ?case
  proof (cases "fst (loop_iteration E c) = None")
    case True
    from clock_iteration_positive[OF True, of col] Suc[of ?c'] show ?thesis
      unfolding loop_states_continue[OF True] by (auto simp add: charges_stop_Cons)
  next
    case False
    show ?thesis
      unfolding loop_states_exit[OF False] by simp
  qed
qed

lemma last_loop_states_continue:
  assumes "fst (loop_iteration E c) = None"
  shows "last (loop_states E (Suc n) c) = last (loop_states E n (snd (loop_iteration E c)))"
  unfolding loop_states_continue[OF assms] by simp

lemma last_loop_states_exit:
  assumes "fst (loop_iteration E c) \<noteq> None"
  shows "last (loop_states E (Suc n) c) = snd (loop_iteration E c)"
  unfolding loop_states_exit[OF assms] by simp

lemma played_samples_continue:
  assumes "fst (loop_iteration E c) = None"
  shows "played_samples E (Suc n) c col =
     (if col = color_to_move E c
      then (case fst (ask_player E c (get_current_player E c)) of
              Inr mv \<Rightarrow> [thinking_time mv]
            | Inl e \<Rightarrow> [])
      else [])
     @ played_samples E n (snd (loop_iteration E c)) col"
  using assms by (cases "loop_iteration E c") simp

lemma played_samples_exit:
  assumes "fst (loop_iteration E c) \<noteq> None"
  shows "played_samples E (Suc n) c col = []"
  using assms by (cases "loop_iteration E c") auto

lemma move_times_continue:
  assumes "fst (loop_iteration E c) = None"
  shows "move_times (snd (loop_iteration E c)) col =
     move_times c col @
       (if col = color_to_move E c
        then (case fst (ask_player E c (get_current_player E c)) of
                Inr mv \<Rightarrow> [thinking_time mv]
              | Inl e \<Rightarrow> [])
        else [])"
proof (cases rule: loop_iteration_cases[of E c])
  case (raised e)
  with assms show ?thesis by simp
next
  case finished
  with assms show ?thesis by simp
next
  case (broke c2)
  with assms show ?thesis by simp
next
  case (moved m c2)
  with get_next_move_Some(2)[OF moved(2)] get_next_move_frame(5)[OF moved(2)]
  show ?thesis by auto
qed

lemma move_times_exit:
  assumes "fst (loop_iteration E c) \<noteq> None"
  shows "move_times (snd (loop_iteration E c)) = move_times c"
proof (cases rule: loop_iteration_cases[of E c])
  case (raised e)
  then show ?thesis by simp
next
  case finished
  then show ?thesis by simp
next
  case (broke c2)
  with get_next_move_frame(5)[OF broke(2)] show ?thesis by simp
next
  case (moved m c2)
  with assms show ?thesis by simp
qed

lemma move_times_last:
  "move_times (last (loop_states E n c)) col = move_times c col @ played_samples E n c col"
proof (induction n arbitrary: c)
  case 0
  then show ?case by simp
next
  case (Suc n)
  show ?case
  proof (cases "fst (loop_iteration E c) = None")
    case True
    show ?thesis
      unfolding last_loop_states_continue[OF True] played_samples_continue[OF True]
        Suc[of "snd (loop_iteration E c)"] move_times_continue[OF True]
      by simp
  next
    case False
    show ?thesis
      unfolding last_loop_states_exit[OF False] played_samples_exit[OF False]
        move_times_exit[OF False]
      by simp
  qed
qed

lemma stats_match_last:
  assumes "stats_match E col c"
  shows "stats_match E col (last (loop_states E n c))"
proof -
  have "list_all (stats_match E col) (loop_states E n c)"
    using assms stats_match_iteration by (rule list_all_loop_states[rotated])
  then show ?thesis
    by (simp add: list_all_iff)
qed

lemma Max_with_zero_nonneg:
  assumes "list_all (\<lambda>x. 0 \<le> x) xs"
  shows "Max (insert 0 (set xs)) = (if xs = [] then 0 else Max (set (xs :: real list)))"
proof (cases "xs = []")
  case True
  then show ?thesis by simp
next
  case False
  then have "Max (insert 0 (set xs)) = max 0 (Max (set xs))"
    by simp
  moreover have "0 \<le> Max (set xs)"
  proof -
    from False have member: "hd xs \<in> set xs" by simp
    with assms have "0 \<le> hd xs" by (simp add: list_all_iff)
    also from member have "hd xs \<le> Max (set xs)" by (intro Max_ge) simp_all
    finally show ?thesis .
  qed
  ultimately show ?thesis using False by (simp add: max_def)
qed

section \<open>Further facts about single operations\<close>

lemma is_game_finished_False:
  assumes "fst (is_game_finished E c) = Inr False"
  shows "is_game_finished E c = (Inr False, c)"
  using assms by (auto simp add: is_game_finished_def py_call_str_def Let_def split: if_splits)

lemma one_attempt_illegal:
  assumes "api p (api_calls p) prompt = ApiReturns elapsed (JsonObject (Some m) ex cf)"
    and "m \<notin> set legal" and "i < retries p"
  shows "one_attempt v p prompt legal i = (Continue, p\<lparr>api_calls := api_calls p + 1\<rparr>)"
  using assms by (simp add: one_attempt_def read_reply_def Let_def)

lemma one_attempt_unreadable:
  assumes "api p (api_calls p) prompt = ApiReturns elapsed reply"
    and "unreadable legal (\<not> i < retries p) reply"
  shows "\<exists>e. one_attempt v p prompt legal i = (Raise e, p\<lparr>api_calls := api_calls p + 1\<rparr>)"
proof -
  from assms(2) have "\<exists>e. read_reply v legal i (retries p) elapsed reply = Raise e"
    by (cases reply) (auto simp add: read_reply_def split: option.splits)
  with assms(1) show ?thesis
    by (auto simp add: one_attempt_def Let_def)
qed

lemma attempts_skip_illegal:
  assumes "illegal_replies p prompt legal j" and "i + j \<le> retries p"
  shows "attempts v p prompt legal (j + k) i =
     attempts v (p\<lparr>api_calls := api_calls p + j\<rparr>) prompt legal k (i + j)"
  using assms
proof (induction j arbitrary: p i)
  case 0
  then show ?case by simp
next
  case (Suc j)
  let ?p' = "p\<lparr>api_calls := api_calls p + 1\<rparr>"
  from Suc.prems(1) obtain elapsed m ex cf
    where reply: "api p (api_calls p) prompt = ApiReturns elapsed (JsonObject (Some m) ex cf)"
      and illegal: "m \<notin> set legal"
      and rest: "illegal_replies ?p' prompt legal j"
    by (auto split: api_outcome.splits api_reply.splits option.splits)
  from Suc.prems(2) have small: "i < retries p" by simp
  from Suc.prems(2) have bound: "Suc i + j \<le> retries ?p'" by simp
  have "attempts v p prompt legal (Suc j + k) i = attempts v ?p' prompt legal (j + k) (Suc i)"
    using one_attempt_illegal[OF reply illegal small, of v] by simp
  also have "\<dots> = attempts v (?p'\<lparr>api_calls := api_calls ?p' + j\<rparr>) prompt legal k (Suc i + j)"
    by (rule Suc.IH[OF rest bound])
  finally show ?case by simp
qed

lemma unreadable_reply_raises:
  assumes "illegal_replies p (get_chess_prompt fen_str history legal) legal j"
    and "j < retries p"
    and "api p (api_calls p + j) (get_chess_prompt fen_str history legal) = ApiReturns t reply"
    and "unreadable legal (Suc j = retries p) reply"
  shows "\<exists>e. llm_next_move v p fen_str history legal
           = (Inl e, p\<lparr>api_calls := api_calls p + j + 1\<rparr>)"
proof -
  let ?prompt = "get_chess_prompt fen_str history legal"
  let ?p' = "p\<lparr>api_calls := api_calls p + j\<rparr>"
  from assms(2) obtain k where k: "retries p = j + Suc k"
    by (metis less_imp_Suc_add add_Suc_right)
  from assms(2) have bound: "1 + j \<le> retries p" by simp
  have final: "(\<not> 1 + j < retries ?p') = (Suc j = retries p)"
    using assms(2) by auto
  from assms(3) have reply: "api ?p' (api_calls ?p') ?prompt = ApiReturns t reply" by simp
  from one_attempt_unreadable[OF reply, of legal "1 + j" v] assms(4) final
  obtain e where "one_attempt v ?p' ?prompt legal (1 + j) = (Raise e, ?p'\<lparr>api_calls := api_calls ?p' + 1\<rparr>)"
    by auto
  then have "attempts v ?p' ?prompt legal (Suc k) (1 + j) = (Inl e, p\<lparr>api_calls := api_calls p + j + 1\<rparr>)"
    by simp
  with attempts_skip_illegal[OF assms(1) bound, of v "Suc k"] k show ?thesis
    by (simp add: llm_next_move_def)
qed

lemma dispatch_unreadable_reply:
  assumes "illegal_replies p (get_chess_prompt fen_str history legal) legal j"
    and "j < retries p"
    and "api p (api_calls p + j) (get_chess_prompt fen_str history legal) = ApiReturns t reply"
    and "unreadable legal (Suc j = retries p) reply"
  shows "\<exists>e. dispatch_get_next_move p fen_str history legal
           = (Inl e, p\<lparr>api_calls := api_calls p + j + 1\<rparr>)"
proof (cases "llm_class p")
  case OpenAILLM
  with unreadable_reply_raises[OF assms, of "''OpenAI''"] show ?thesis
    by (auto simp add: dispatch_get_next_move_def openai_get_next_move_def)
next
  case AnthropicLLM
  with unreadable_reply_raises[OF assms, of "''Anthropic''"] show ?thesis
    by (auto simp add: dispatch_get_next_move_def anthropic_get_next_move_def)
qed

section \<open>Running the example matches\<close>

text \<open>Numerals of fuel and of retries unfold one pass at a time.\<close>

lemma attempts_numeral:
  "attempts v p prompt legal (numeral n) i =
     (case one_attempt v p prompt legal i of
        (Raise e, p') \<Rightarrow> (Inl e, p')
      | (Return mv, p') \<Rightarrow> (Inr (Some mv), p')
      | (Continue, p') \<Rightarrow> attempts v p' prompt legal (pred_numeral n) (Suc i))"
  by (simp add: numeral_eq_Suc)

lemma play_loop_numeral:
  "play_loop E (numeral n) c =
     (case loop_iteration E c of
        (Some x, c') \<Rightarrow> Some (x, c')
      | (None, c') \<Rightarrow> play_loop E (pred_numeral n) c')"
  by (simp add: numeral_eq_Suc)

lemmas match_defs =
  GameController_init_def ChessGame_init_def BaseLLM_init_def always_reply_def scripted_def
  broken_then_good_def illegal_then_broken_def good_reply_def

lemmas book_defs =
  book_env_def book_legal_moves_def white_first_moves_def black_first_moves_def book_san_def
  book_parse_san_def book_from_uci_def book_is_checkmate_def fools_mate_def scholars_mate_def

lemmas proposer_defs =
  dispatch_get_next_move_def openai_get_next_move_def anthropic_get_next_move_def
  llm_next_move_def attempts_numeral one_attempt_def read_reply_def

lemmas controller_defs =
  loop_iteration_def is_game_finished_def is_game_over_def get_current_player_def
  color_to_move_def get_next_move_def apply_proposed_def make_move_def get_fen_def
  update_stats_def set_termination_def set_result_def py_call_str_def result_def Let_def

lemmas render_defs =
  play_game_def play_loop_numeral on_exception_def export_game_def export_pgn_def

lemma loop_states_numeral:
  "loop_states E (numeral n) c =
     c # (case loop_iteration E c of
            (Some x, c') \<Rightarrow> [c']
          | (None, c') \<Rightarrow> loop_states E (pred_numeral n) c')"
  by (simp add: numeral_eq_Suc)

lemma played_samples_numeral:
  "played_samples E (numeral n) c col =
     (case loop_iteration E c of
        (Some x, c') \<Rightarrow> []
      | (None, c') \<Rightarrow>
          (if col = color_to_move E c
           then (case fst (ask_player E c (get_current_player E c)) of
                   Inr mv \<Rightarrow> [thinking_time mv]
                 | Inl e \<Rightarrow> [])
           else [])
          @ played_samples E (pred_numeral n) c' col)"
  by (simp add: numeral_eq_Suc)

section \<open>What a match returns\<close>

text \<open>
  Claim C1 says that \<^verbatim>\<open>play_game\<close> returns a transcript however the match ends. The code
  does not: the statistics dictionary has no \<^verbatim>\<open>"result"\<close> entry until a forfeit stores
  one, so rendering raises \<^verbatim>\<open>KeyError\<close>, and the handler of \<^verbatim>\<open>play_game\<close> renders again and
  raises again. Here the sides play Fool's mate: the loop is left by the \<^verbatim>\<open>TypeError\<close> of
  \<^verbatim>\<open>self.game.result()\<close> with the mate on the board, and \<^verbatim>\<open>play_game\<close> ends in
  \<^verbatim>\<open>KeyError('result')\<close> instead of a transcript.
\<close>

theorem checkmate_match_raises:
  "map_option fst (play_game book_env a_day 9 match_mate) = Some (Inl (KeyError ''result''))
   \<and> map_option fst (play_loop book_env 9 (match_mate\<lparr>match_start_time := Some a_day\<rparr>))
       = Some (Raised (TypeError (apostrophe @ ''str'' @ apostrophe @ '' object is not callable'')))
   \<and> map_option (board \<circ> game \<circ> snd) (play_game book_env a_day 9 match_mate) = Some fools_mate"
  by (simp add: match_mate_def match_defs book_defs proposer_defs controller_defs render_defs)

text \<open>
  Claim C3 says that a match which reaches its move limit ends with the reason
  "maximum moves reached", a drawn result and a transcript. In the untimed match with
  limit one the loop does stop after exactly one move with that reason stored, but no
  result is recorded, and \<^verbatim>\<open>play_game\<close> ends in \<^verbatim>\<open>KeyError('result')\<close> instead of a
  transcript.
\<close>

theorem max_moves_match_raises:
  "map_option fst (play_game book_env a_day 5 match_a) = Some (Inl (KeyError ''result''))
   \<and> map_option (stats_termination \<circ> game_stats \<circ> snd)
        (play_loop book_env 5 (match_a\<lparr>match_start_time := Some a_day\<rparr>))
       = Some (Some ''Maximum moves reached'')
   \<and> map_option (stats_result \<circ> game_stats \<circ> snd)
        (play_loop book_env 5 (match_a\<lparr>match_start_time := Some a_day\<rparr>)) = Some None
   \<and> map_option (map fst \<circ> move_history \<circ> game \<circ> snd) (play_game book_env a_day 5 match_a)
       = Some [''e2e4'']"
  by (simp add: match_a_def match_defs book_defs proposer_defs controller_defs render_defs)

section \<open>Running out of time\<close>

text \<open>
  Claim C2 as written says that a turn whose charge exhausts the clock still counts as
  played and that the match ends with a time-forfeit reason. Ten seconds on the clock
  and a legal move after fifteen: the move is neither applied nor recorded, and the
  reason the match ends with names an invalid move.
\<close>

theorem time_forfeit_counterexample:
  "fst (ask_player book_env match_d WhitePlayer)
     = Inr \<lparr>move = ''e4'', explanation = ''book move'', confidence = 1, thinking_time = 15\<rparr>
   \<and> ''e4'' \<in> set (map (board_san book_env (board (game match_d)))
                     (board_legal_moves book_env (board (game match_d))))
   \<and> map_option (move_history \<circ> game \<circ> snd) (play_game book_env a_day 9 match_d) = Some []
   \<and> map_option (board \<circ> game \<circ> snd) (play_game book_env a_day 9 match_d) = Some []
   \<and> map_option (stats_termination \<circ> game_stats \<circ> snd) (play_game book_env a_day 9 match_d)
       = Some (Some ''Invalid move by white'')"
  by (simp add: match_d_def match_defs book_defs proposer_defs controller_defs render_defs
      ask_player_def)

text \<open>
  Claim C2, amended. When the charge of a side's thinking time leaves its clock at zero or
  below, the turn is not played: the pass leaves the loop at once, game, move counter and
  samples are as before, the clock keeps the charged value, and the recorded result is the
  win of the other side.
\<close>

theorem exhausted_clock_forfeits_without_move:
  assumes fin: "fst (is_game_finished E c) = Inr False"
    and tr: "time_remaining c = Some tr"
    and ask: "ask_player E c (get_current_player E c) = (Inr mr, p')"
    and out: "tr (color_to_move E c) - thinking_time mr \<le> 0"
  shows "fst (loop_iteration E c) = Some Broke
     \<and> game (snd (loop_iteration E c)) = game c
     \<and> total_moves (game_stats (snd (loop_iteration E c))) = total_moves (game_stats c)
     \<and> move_times (snd (loop_iteration E c)) = move_times c
     \<and> clock_of (snd (loop_iteration E c)) (color_to_move E c)
         = tr (color_to_move E c) - thinking_time mr
     \<and> stats_result (game_stats (snd (loop_iteration E c)))
         = Some (if color_to_move E c = ''white'' then ''0-1'' else ''1-0'')"
proof -
  let ?player = "get_current_player E c"
  let ?color = "color_to_move E c"
  have next_move: "get_next_move E c ?player ?color =
      (None, set_termination
         ((set_player c ?player p')\<lparr>time_remaining := Some (tr(?color := tr ?color - thinking_time mr))\<rparr>)
         (?color @ '' lost on time''))"
    using tr ask out by (simp add: get_next_move_def ask_player_def Let_def)
  have "loop_iteration E c =
      (Some Broke,
       set_termination
         (set_result
            (set_termination
               ((set_player c ?player p')\<lparr>time_remaining := Some (tr(?color := tr ?color - thinking_time mr))\<rparr>)
               (?color @ '' lost on time''))
            (if ?color = ''white'' then ''0-1'' else ''1-0''))
         (''Invalid move by '' @ ?color))"
    using is_game_finished_False[OF fin] next_move by (simp add: loop_iteration_def Let_def)
  then show ?thesis by (simp add: clock_of_def)
qed

theorem exhausted_clock_forfeits_without_move_witness:
  "fst (is_game_finished book_env match_d) = Inr False
   \<and> time_remaining match_d = Some (\<lambda>_. 10)
   \<and> fst (ask_player book_env match_d (get_current_player book_env match_d))
       = Inr \<lparr>move = ''e4'', explanation = ''book move'', confidence = 1, thinking_time = 15\<rparr>
   \<and> fst (loop_iteration book_env match_d) = Some Broke
   \<and> move_history (game (snd (loop_iteration book_env match_d))) = []
   \<and> clock_of (snd (loop_iteration book_env match_d)) ''white'' = - 5
   \<and> stats_result (game_stats (snd (loop_iteration book_env match_d))) = Some ''0-1''"
proof -
  let ?p' = "(BaseLLM_init OpenAILLM (always_reply 15 (good_reply ''e4'')))\<lparr>api_calls := 1\<rparr>"
  let ?mr = "\<lparr>move = ''e4'', explanation = ''book move'', confidence = 1, thinking_time = 15\<rparr>"
  have fin: "fst (is_game_finished book_env match_d) = Inr False"
    by (simp add: match_d_def match_defs book_defs controller_defs)
  have tr: "time_remaining match_d = Some (\<lambda>_. 10)"
    by (simp add: match_d_def match_defs)
  have ask: "ask_player book_env match_d (get_current_player book_env match_d) = (Inr ?mr, ?p')"
    by (simp add: match_d_def match_defs book_defs proposer_defs ask_player_def
        get_current_player_def get_fen_def)
  have out: "(\<lambda>_. 10 :: real) (color_to_move book_env match_d) - thinking_time ?mr \<le> 0"
    by simp
  have white: "color_to_move book_env match_d = ''white''"
    by (simp add: match_d_def match_defs book_defs color_to_move_def)
  have start: "move_history (game match_d) = []"
    by (simp add: match_d_def match_defs)
  from exhausted_clock_forfeits_without_move[OF fin tr ask out] fin tr ask white start
  show ?thesis by simp
qed

section \<open>Replies that cannot be read\<close>

text \<open>
  Claim C4 as written says that a malformed reply is retried up to three times. A proposer
  with three attempts whose first reply is not JSON, and whose next reply would be a
  legal move, raises after a single call of its client, and the pass forfeits.
\<close>

theorem malformed_reply_counterexample:
  "retries (BaseLLM_init AnthropicLLM broken_then_good) = 3
   \<and> fst (anthropic_get_next_move (BaseLLM_init AnthropicLLM broken_then_good)
          (board_fen book_env []) [] [''e4''])
       = Inl (Exception ''Error calling Anthropic API: Invalid response format from Anthropic: Expecting value'')
   \<and> api_calls (snd (anthropic_get_next_move (BaseLLM_init AnthropicLLM broken_then_good)
          (board_fen book_env []) [] [''e4''])) = 1
   \<and> fst (loop_iteration book_env match_bad) = Some Broke"
  by (simp add: match_bad_def match_defs book_defs proposer_defs controller_defs
      api_error_def invalid_format_def)

text \<open>
  Claim C4, amended. A malformed reply is not retried. If the replies of a turn so far
  each named a move outside the legal list (the only replies that are retried), and the
  next reply is not JSON, or lacks its move, or lacks its explanation or confidence when
  these are looked up, then the proposer raises on the attempt that receives it, and the
  turn escalates at once to a forfeit of the side to move, with the game unchanged.
\<close>

theorem unreadable_reply_forfeits_at_once:
  assumes disp: "llm_get_next_move E = dispatch_get_next_move"
    and fin: "fst (is_game_finished E c) = Inr False"
    and prompt: "prompt = get_chess_prompt (get_fen E (game c))
                   (map (\<lambda>(_, mv, _). mv) (move_history (game c)))
                   (map (board_san E (board (game c))) (board_legal_moves E (board (game c))))"
    and legal: "legal = map (board_san E (board (game c))) (board_legal_moves E (board (game c)))"
    and before: "illegal_replies (player_of c (get_current_player E c)) prompt legal j"
    and bound: "j < retries (player_of c (get_current_player E c))"
    and reply: "api (player_of c (get_current_player E c))
                  (api_calls (player_of c (get_current_player E c)) + j) prompt
                = ApiReturns t reply"
    and bad: "unreadable legal (Suc j = retries (player_of c (get_current_player E c))) reply"
  shows "fst (loop_iteration E c) = Some Broke
     \<and> game (snd (loop_iteration E c)) = game c
     \<and> api_calls (player_of (snd (loop_iteration E c)) (get_current_player E c))
         = api_calls (player_of c (get_current_player E c)) + j + 1
     \<and> stats_result (game_stats (snd (loop_iteration E c)))
         = Some (if color_to_move E c = ''white'' then ''0-1'' else ''1-0'')"
proof -
  let ?player = "get_current_player E c"
  let ?color = "color_to_move E c"
  let ?p = "player_of c ?player"
  let ?p' = "?p\<lparr>api_calls := api_calls ?p + j + 1\<rparr>"
  from dispatch_unreadable_reply[OF before[unfolded prompt legal] bound
      reply[unfolded prompt legal] bad[unfolded legal]] disp
  obtain e where ask: "ask_player E c ?player = (Inl e, ?p')"
    by (auto simp add: ask_player_def)
  have next_move: "get_next_move E c ?player ?color = (None, set_player c ?player ?p')"
    using ask by (simp add: get_next_move_def ask_player_def Let_def)
  have "loop_iteration E c =
      (Some Broke,
       set_termination
         (set_result (set_player c ?player ?p')
            (if ?color = ''white'' then ''0-1'' else ''1-0''))
         (''Invalid move by '' @ ?color))"
    using is_game_finished_False[OF fin] next_move by (simp add: loop_iteration_def Let_def)
  moreover have "api_calls (player_of (set_termination (set_result (set_player c ?player ?p') r) t')
        ?player) = api_calls ?p + j + 1" for r t'
    by (cases ?player) (simp_all add: set_termination_def set_result_def)
  ultimately show ?thesis by simp
qed

theorem unreadable_reply_forfeits_at_once_witness:
  "llm_get_next_move book_env = dispatch_get_next_move
   \<and> fst (is_game_finished book_env match_retry) = Inr False
   \<and> illegal_replies (player_of match_retry WhitePlayer)
        (get_chess_prompt (get_fen book_env (game match_retry)) []
           (map (board_san book_env []) (board_legal_moves book_env [])))
        (map (board_san book_env []) (board_legal_moves book_env [])) 1
   \<and> unreadable (map (board_san book_env []) (board_legal_moves book_env [])) False
        (JsonInvalid ''Expecting value'')
   \<and> retries (player_of match_retry WhitePlayer) = 3
   \<and> fst (loop_iteration book_env match_retry) = Some Broke
   \<and> move_history (game (snd (loop_iteration book_env match_retry))) = []
   \<and> api_calls (player_of (snd (loop_iteration book_env match_retry)) WhitePlayer) = 2
   \<and> stats_result (game_stats (snd (loop_iteration book_env match_retry))) = Some ''0-1''"
proof -
  let ?legal = "map (board_san book_env []) (board_legal_moves book_env [])"
  let ?prompt = "get_chess_prompt (get_fen book_env (game match_retry)) [] ?legal"
  have disp: "llm_get_next_move book_env = dispatch_get_next_move"
    by (simp add: book_env_def)
  have fin: "fst (is_game_finished book_env match_retry) = Inr False"
    by (simp add: match_retry_def match_defs book_defs controller_defs)
  have player: "get_current_player book_env match_retry = WhitePlayer"
    by (simp add: match_retry_def match_defs book_defs get_current_player_def)
  have white: "color_to_move book_env match_retry = ''white''"
    by (simp add: match_retry_def match_defs book_defs color_to_move_def)
  have calls: "api_calls (player_of match_retry WhitePlayer) = 0"
    and bound3: "retries (player_of match_retry WhitePlayer) = 3"
    and client: "api (player_of match_retry WhitePlayer) = illegal_then_broken"
    and start: "move_history (game match_retry) = []"
    and position: "board (game match_retry) = []"
    by (simp_all add: match_retry_def match_defs book_env_def)
  have prompt: "?prompt = get_chess_prompt (get_fen book_env (game match_retry))
                   (map (\<lambda>(_, mv, _). mv) (move_history (game match_retry)))
                   (map (board_san book_env (board (game match_retry)))
                      (board_legal_moves book_env (board (game match_retry))))"
    unfolding start position by simp
  have legal: "?legal = map (board_san book_env (board (game match_retry)))
                      (board_legal_moves book_env (board (game match_retry)))"
    unfolding position by simp
  have e5: "''e5'' \<notin> set ?legal"
    by (simp add: book_defs)
  have before: "illegal_replies (player_of match_retry WhitePlayer) ?prompt ?legal 1"
    using e5 calls client
    by (simp add: illegal_then_broken_def good_reply_def)
  have bound: "1 < retries (player_of match_retry WhitePlayer)"
    unfolding bound3 by simp
  have reply: "api (player_of match_retry WhitePlayer)
                  (api_calls (player_of match_retry WhitePlayer) + 1) ?prompt
                = ApiReturns 2 (JsonInvalid ''Expecting value'')"
    unfolding calls client by (simp add: illegal_then_broken_def)
  have bad: "unreadable ?legal (Suc 1 = retries (player_of match_retry WhitePlayer))
               (JsonInvalid ''Expecting value'')"
    by simp
  have bad': "unreadable ?legal False (JsonInvalid ''Expecting value'')"
    by simp
  from unreadable_reply_forfeits_at_once[OF disp fin prompt legal
      before[folded player] bound[folded player] reply[folded player] bad[folded player]]
    disp fin player white calls bound3 start before bad'
  show ?thesis by simp
qed

section \<open>Which moves are applied\<close>




section \<open>Clocks\<close>

text \<open>
  Claim C6. If every thinking time the match charges is non-negative, then along the
  states of the loop each side's clock never increases, and a state in which a charge has
  left a clock at zero or below is the last state: no further charge follows.
\<close>

theorem clocks_never_increase:
  assumes "list_all (charge_nonneg E) (butlast (loop_states E n c))"
  shows "sorted_wrt (\<lambda>s t. clock_of t col \<le> clock_of s col) (loop_states E n c)
     \<and> charges_stop col (loop_states E n c)"
  using clocks_sorted[OF assms] charges_stop_states by blast

theorem clocks_never_increase_witness:
  "list_all (charge_nonneg book_env) (butlast (loop_states book_env 3 match_t))
   \<and> map (\<lambda>s. clock_of s ''black'') (loop_states book_env 3 match_t) = [10, 10, - 2]
   \<and> sorted_wrt (\<lambda>s t. clock_of t ''black'' \<le> clock_of s ''black'')
        (loop_states book_env 3 match_t)
   \<and> charges_stop ''black'' (loop_states book_env 3 match_t)"
proof -
  have charges: "list_all (charge_nonneg book_env) (butlast (loop_states book_env 3 match_t))"
    by (simp add: match_t_def match_defs book_defs proposer_defs controller_defs
        loop_states_numeral charge_nonneg_def charge_of_def ask_player_def)
  have clocks: "map (\<lambda>s. clock_of s ''black'') (loop_states book_env 3 match_t) = [10, 10, - 2]"
    by (simp add: match_t_def match_defs book_defs proposer_defs controller_defs
        loop_states_numeral clock_of_def)
  from clocks_never_increase[OF charges, of "''black''"] charges clocks
  show ?thesis by blast
qed

section \<open>Running statistics\<close>

text \<open>
  Claim C7 as written says that the recorded average of a side is the mean of all
  thinking times charged to that side. With ten seconds a side, white moves after four
  seconds and black answers after twelve: the twelve seconds are charged to black's
  clock, which ends at two below zero, but the match ends there, black has no sample
  and its recorded average and longest think time are still zero.
\<close>

theorem exhausting_charge_not_sampled_counterexample:
  "color_to_move book_env (loop_states book_env 3 match_t ! 1) = ''black''
   \<and> charge_of book_env (loop_states book_env 3 match_t ! 1) = Some 12
   \<and> clock_of (last (loop_states book_env 3 match_t)) ''black'' = - 2
   \<and> move_times (last (loop_states book_env 3 match_t)) ''black'' = []
   \<and> average_time_per_move (game_stats (last (loop_states book_env 3 match_t))) ''black'' = 0
   \<and> longest_think_time (game_stats (last (loop_states book_env 3 match_t))) ''black'' = 0"
  by (simp add: match_t_def match_defs book_defs proposer_defs controller_defs
      loop_states_numeral charge_of_def ask_player_def clock_of_def)

text \<open>
  Claim C7, amended. After any number of passes of the match loop, and for each side, the
  recorded samples are the thinking times reported for the moves that side has played so
  far, in order (the thinking time of a turn that ends the match is charged to the clock
  but is no sample). The recorded average is their mean as the code computes it, the
  floating-point sum of the samples divided by their number, and \<open>0.0\<close> while there is
  none. If these thinking times are non-negative, the recorded longest think time is
  their maximum, and \<open>0.0\<close> while there is none.
\<close>

theorem running_statistics_of_played_moves:
  "move_times
     (last (loop_states E n
        ((GameController_init E now white black tc mm)\<lparr>match_start_time := Some t\<rparr>))) col
     = played_samples E n
         ((GameController_init E now white black tc mm)\<lparr>match_start_time := Some t\<rparr>) col
   \<and> average_time_per_move (game_stats
        (last (loop_states E n
           ((GameController_init E now white black tc mm)\<lparr>match_start_time := Some t\<rparr>)))) col
     = py_mean E
         (played_samples E n
            ((GameController_init E now white black tc mm)\<lparr>match_start_time := Some t\<rparr>) col)
   \<and> (list_all (\<lambda>x. 0 \<le> x)
         (played_samples E n
            ((GameController_init E now white black tc mm)\<lparr>match_start_time := Some t\<rparr>) col)
      \<longrightarrow> longest_think_time (game_stats
            (last (loop_states E n
               ((GameController_init E now white black tc mm)\<lparr>match_start_time := Some t\<rparr>)))) col
          = (if played_samples E n
                 ((GameController_init E now white black tc mm)\<lparr>match_start_time := Some t\<rparr>) col
               = []
             then 0
             else Max (set (played_samples E n
                 ((GameController_init E now white black tc mm)\<lparr>match_start_time := Some t\<rparr>)
                 col))))"
proof -
  let ?c = "(GameController_init E now white black tc mm)\<lparr>match_start_time := Some t\<rparr>"
  let ?s = "last (loop_states E n ?c)"
  let ?xs = "played_samples E n ?c col"
  have none: "move_times ?c col = []"
    by (simp add: GameController_init_def)
  have "stats_match E col ?c"
    by (simp add: stats_match_def GameController_init_def py_mean_def)
  then have final: "stats_match E col ?s"
    by (rule stats_match_last)
  have samples: "move_times ?s col = ?xs"
    using move_times_last[of E n ?c col] none by simp
  have average: "average_time_per_move (game_stats ?s) col = py_mean E ?xs"
    using final samples by (simp add: stats_match_def)
  have longest: "longest_think_time (game_stats ?s) col = Max (insert 0 (set ?xs))"
    using final samples by (simp add: stats_match_def)
  have "list_all (\<lambda>x. 0 \<le> x) ?xs \<longrightarrow>
      longest_think_time (game_stats ?s) col = (if ?xs = [] then 0 else Max (set ?xs))"
    using longest Max_with_zero_nonneg[of ?xs] by simp
  with samples average show ?thesis by blast
qed

theorem running_statistics_of_played_moves_witness:
  "played_samples book_env 9 (match_mate\<lparr>match_start_time := Some a_day\<rparr>) ''white'' = [2, 2]
   \<and> list_all (\<lambda>x. 0 \<le> x)
        (played_samples book_env 9 (match_mate\<lparr>match_start_time := Some a_day\<rparr>) ''white'')
   \<and> move_times (last (loop_states book_env 9 (match_mate\<lparr>match_start_time := Some a_day\<rparr>)))
        ''white'' = [2, 2]
   \<and> average_time_per_move (game_stats
        (last (loop_states book_env 9 (match_mate\<lparr>match_start_time := Some a_day\<rparr>)))) ''white'' = 2
   \<and> longest_think_time (game_stats
        (last (loop_states book_env 9 (match_mate\<lparr>match_start_time := Some a_day\<rparr>)))) ''white'' = 2"
proof -
  let ?c = "match_mate\<lparr>match_start_time := Some a_day\<rparr>"
  have samples: "played_samples book_env 9 ?c ''white'' = [2, 2]"
    by (simp add: match_mate_def match_defs book_defs proposer_defs controller_defs
        played_samples_numeral ask_player_def)
  have mean: "py_mean book_env [2, 2] = 2"
    by (simp add: py_mean_def book_env_def)
  from running_statistics_of_played_moves
    [where E = book_env and n = 9 and now = a_day and tc = None and mm = None and t = a_day
       and white = "BaseLLM_init OpenAILLM (scripted 2 ''f3'' ''g4'')"
       and black = "BaseLLM_init AnthropicLLM (scripted 3 ''e5'' ''Qh4#'')"
       and col = "''white''", folded match_mate_def]
    samples mean
  show ?thesis by simp
qed

section \<open>Rendering\<close>

text \<open>
  Claim C8. The rendered text is a function of the accumulated game and statistics alone:
  two renders of controllers that agree on the game and on the statistics give the same
  outcome, whatever the players, clocks and sample lists are. Rendering changes no state,
  so this covers two renders in a row.
\<close>

theorem export_game_same_state_same_text:
  assumes "game c = game c'" and "game_stats c = game_stats c'"
  shows "export_game E c = export_game E c'"
  unfolding export_game_def assms by (rule refl)

theorem export_game_same_state_same_text_witness:
  "game drawn_match_other = game drawn_match
   \<and> game_stats drawn_match_other = game_stats drawn_match
   \<and> time_remaining drawn_match_other \<noteq> time_remaining drawn_match
   \<and> export_game book_env drawn_match_other = export_game book_env drawn_match"
proof -
  have g: "game drawn_match_other = game drawn_match"
    by (simp add: drawn_match_other_def)
  have st: "game_stats drawn_match_other = game_stats drawn_match"
    by (simp add: drawn_match_other_def)
  have other: "time_remaining drawn_match_other \<noteq> time_remaining drawn_match"
    by (simp add: drawn_match_other_def drawn_match_def match_a_def GameController_init_def)
  from export_game_same_state_same_text[OF g st] g st other show ?thesis by blast
qed

section \<open>The reported result at checkmate\<close>

text \<open>
  Claim C9. In a position that the rules engine reports as checkmate (and hence as over),
  \<^verbatim>\<open>ChessGame.result\<close> gives the win to the side that is not to move: white to move
  yields \<open>0-1\<close>, black to move yields \<open>1-0\<close>.
\<close>

theorem result_checkmate_side_to_move_loses:
  assumes "board_is_checkmate E (board g)" and "board_is_game_over E (board g)"
  shows "result E g = (if board_turn E (board g) then ''0-1'' else ''1-0'')"
  using assms by (simp add: result_def is_game_over_def)

theorem result_checkmate_side_to_move_loses_witness:
  "board_is_checkmate book_env (board ((ChessGame_init book_env a_day ''A'' ''B'')\<lparr>board := fools_mate\<rparr>))
   \<and> board_is_game_over book_env (board ((ChessGame_init book_env a_day ''A'' ''B'')\<lparr>board := fools_mate\<rparr>))
   \<and> result book_env ((ChessGame_init book_env a_day ''A'' ''B'')\<lparr>board := fools_mate\<rparr>) = ''0-1''
   \<and> result book_env ((ChessGame_init book_env a_day ''A'' ''B'')\<lparr>board := scholars_mate\<rparr>) = ''1-0''"
proof -
  let ?g = "(ChessGame_init book_env a_day ''A'' ''B'')\<lparr>board := fools_mate\<rparr>"
  let ?h = "(ChessGame_init book_env a_day ''A'' ''B'')\<lparr>board := scholars_mate\<rparr>"
  have mate: "board_is_checkmate book_env (board ?g)" "board_is_game_over book_env (board ?g)"
    by (simp_all add: book_env_def book_is_checkmate_def)
  have mate': "board_is_checkmate book_env (board ?h)" "board_is_game_over book_env (board ?h)"
    by (simp_all add: book_env_def book_is_checkmate_def)
  have white_to_move: "board_turn book_env (board ?g)"
    by (simp add: book_env_def fools_mate_def)
  have black_to_move: "\<not> board_turn book_env (board ?h)"
    by (simp add: book_env_def scholars_mate_def)
  from result_checkmate_side_to_move_loses[OF mate] white_to_move
  have "result book_env ?g = ''0-1''" by simp
  moreover from result_checkmate_side_to_move_loses[OF mate'] black_to_move
  have "result book_env ?h = ''1-0''" by simp
  ultimately show ?thesis using mate by simp
qed

section \<open>The move counter\<close>

text \<open>
  Claim C10. In every state of the match loop, from the state the constructor builds,
  \<^verbatim>\<open>total_moves\<close> equals the length of the move history; and from one state to the next
  either both are unchanged or exactly one record was appended and the counter went up by
  exactly one.
\<close>

theorem total_moves_equals_history_length:
  "list_all moves_counted
     (loop_states E n ((GameController_init E now white black tc mm)\<lparr>match_start_time := Some t\<rparr>))
   \<and> successively one_more_move
     (loop_states E n ((GameController_init E now white black tc mm)\<lparr>match_start_time := Some t\<rparr>))"
proof
  have "moves_counted ((GameController_init E now white black tc mm)\<lparr>match_start_time := Some t\<rparr>)"
    by (simp add: moves_counted_def GameController_init_def ChessGame_init_def)
  then show "list_all moves_counted
     (loop_states E n ((GameController_init E now white black tc mm)\<lparr>match_start_time := Some t\<rparr>))"
    using moves_counted_iteration by (rule list_all_loop_states[rotated])
  show "successively one_more_move
     (loop_states E n ((GameController_init E now white black tc mm)\<lparr>match_start_time := Some t\<rparr>))"
    by (rule successively_loop_states) (rule one_more_move_iteration)
qed

end
